theory Spec2Isabelle
  imports Main "HOL-Library.Word"
begin

section \<open>Input streams of the C++ standard library\<close>

text \<open>
  \<^verbatim>\<open>getPNORVersion\<close> reads the version file through a \<^verbatim>\<open>std::ifstream\<close> and
  \<^verbatim>\<open>getPartsToClear\<close> splits the listing through a \<^verbatim>\<open>std::istringstream\<close>. Both are
  input streams over a fixed character sequence with a read position and the state bits
  \<^verbatim>\<open>eofbit\<close> and \<^verbatim>\<open>failbit\<close>. Every input function first constructs a sentry: when the
  stream is not \<^verbatim>\<open>good()\<close> the sentry sets \<^verbatim>\<open>failbit\<close> and the function does nothing.
\<close>

record istream =
  chars :: string
  gpos :: nat
  eofbit :: bool
  failbit :: bool

definition good :: "istream \<Rightarrow> bool" where
  "good s = (\<not> eofbit s \<and> \<not> failbit s)"

definition fail :: "istream \<Rightarrow> bool" where
  "fail s = failbit s"

text \<open>The sentry of an unformatted input function (\<^verbatim>\<open>noskipws = true\<close>).\<close>

definition sentry :: "istream \<Rightarrow> bool \<times> istream" where
  "sentry s = (if good s then (True, s) else (False, s\<lparr>failbit := True\<rparr>))"

text \<open>\<^verbatim>\<open>std::istringstream iss(info)\<close>: a good stream positioned at the start.\<close>

definition istringstream :: "string \<Rightarrow> istream" where
  "istringstream info = \<lparr>chars = info, gpos = 0, eofbit = False, failbit = False\<rparr>"

text \<open>
  \<^verbatim>\<open>std::ifstream f(name, in | binary)\<close>: the file's bytes when the file can be opened;
  otherwise the constructor sets \<^verbatim>\<open>failbit\<close>.
\<close>

definition ifstream :: "string option \<Rightarrow> istream" where
  "ifstream file =
     (case file of
        None \<Rightarrow> \<lparr>chars = [], gpos = 0, eofbit = False, failbit = True\<rparr>
      | Some bytes \<Rightarrow> \<lparr>chars = bytes, gpos = 0, eofbit = False, failbit = False\<rparr>)"

text \<open>
  \<^verbatim>\<open>f.read(buf, n)\<close>: stores the characters that are available, at most \<open>n\<close>; when
  fewer than \<open>n\<close> are available it sets \<^verbatim>\<open>eofbit | failbit\<close>. Returns the characters
  stored.
\<close>

definition istream_read :: "istream \<Rightarrow> nat \<Rightarrow> string \<times> istream" where
  "istream_read s n =
     (case sentry s of
        (False, s') \<Rightarrow> ([], s')
      | (True, s') \<Rightarrow>
          (let got = take n (drop (gpos s') (chars s'))
           in (got, if length got < n
                    then s'\<lparr>gpos := gpos s' + length got, eofbit := True, failbit := True\<rparr>
                    else s'\<lparr>gpos := gpos s' + length got\<rparr>)))"

text \<open>
  \<^verbatim>\<open>f.seekg(0, std::ios::beg)\<close>: first clears \<^verbatim>\<open>eofbit\<close>, then constructs the sentry;
  only when the sentry succeeds is the position moved.
\<close>

definition seekg_beg :: "istream \<Rightarrow> nat \<Rightarrow> istream" where
  "seekg_beg s off =
     (case sentry (s\<lparr>eofbit := False\<rparr>) of
        (False, s') \<Rightarrow> s'
      | (True, s') \<Rightarrow> s'\<lparr>gpos := off\<rparr>)"

text \<open>
  \<^verbatim>\<open>f.ignore(n)\<close>: extracts and drops up to \<open>n\<close> characters; reaching the end of the
  data before \<open>n\<close> characters were extracted sets \<^verbatim>\<open>eofbit\<close>.
\<close>

definition istream_ignore :: "istream \<Rightarrow> nat \<Rightarrow> istream" where
  "istream_ignore s n =
     (case sentry s of
        (False, s') \<Rightarrow> s'
      | (True, s') \<Rightarrow>
          (let avail = length (chars s') - gpos s'
           in if avail < n
              then s'\<lparr>gpos := gpos s' + avail, eofbit := True\<rparr>
              else s'\<lparr>gpos := gpos s' + n\<rparr>))"

text \<open>
  \<^verbatim>\<open>std::getline(is, str, delim)\<close>: when the sentry fails the string is left as it
  was. Otherwise the string is erased and characters are appended up to the delimiter
  (extracted, not stored) or the end of the data (\<^verbatim>\<open>eofbit\<close>); when nothing at all was
  extracted, \<^verbatim>\<open>failbit\<close> is set.
\<close>

definition getline :: "istream \<Rightarrow> string \<Rightarrow> char \<Rightarrow> string \<times> istream" where
  "getline s str delim =
     (case sentry s of
        (False, s') \<Rightarrow> (str, s')
      | (True, s') \<Rightarrow>
          (let rest = drop (gpos s') (chars s');
               line = takeWhile (\<lambda>c. c \<noteq> delim) rest
           in if length line < length rest
              then (line, s'\<lparr>gpos := gpos s' + length line + 1\<rparr>)
              else (line, s'\<lparr>gpos := gpos s' + length line, eofbit := True,
                             failbit := (line = [])\<rparr>)))"

section \<open>Strings\<close>

text \<open>
  \<^verbatim>\<open>std::string::find(c)\<close> (here \<open>find_string\<close>) and \<^verbatim>\<open>find_first_of(c)\<close> give
  the index of the first occurrence, \<^verbatim>\<open>find_first_not_of(c)\<close> the index of the first
  other character; \<^verbatim>\<open>npos\<close> is \<open>None\<close>.
\<close>

fun find_if :: "(char \<Rightarrow> bool) \<Rightarrow> string \<Rightarrow> nat option" where
  "find_if P [] = None"
| "find_if P (c # cs) =
     (if P c then Some 0 else (case find_if P cs of None \<Rightarrow> None | Some i \<Rightarrow> Some (Suc i)))"

definition find_string :: "string \<Rightarrow> char \<Rightarrow> nat option" where
  "find_string s c = find_if (\<lambda>x. x = c) s"

definition find_first_of :: "string \<Rightarrow> char \<Rightarrow> nat option" where
  "find_first_of s c = find_if (\<lambda>x. x = c) s"

definition find_first_not_of :: "string \<Rightarrow> char \<Rightarrow> nat option" where
  "find_first_not_of s c = find_if (\<lambda>x. x \<noteq> c) s"

text \<open>\<^verbatim>\<open>s.substr(pos)\<close> and \<^verbatim>\<open>s.substr(0, n)\<close>, for \<open>pos \<le> length s\<close>.\<close>

definition substr :: "string \<Rightarrow> nat \<Rightarrow> string" where
  "substr s pos = drop pos s"

definition substr2 :: "string \<Rightarrow> nat \<Rightarrow> nat \<Rightarrow> string" where
  "substr2 s pos n = take n (drop pos s)"

text \<open>
  \<^verbatim>\<open>concat_string(ts...)\<close>: every argument followed by one space, then
  \<^verbatim>\<open>std::endl\<close>.
\<close>

definition concat_string :: "string list \<Rightarrow> string" where
  "concat_string ts = concat (map (\<lambda>t. t @ '' '') ts) @ [CHR 0x0A]"

section \<open>Partition listing: \<^verbatim>\<open>utils::getPartsToClear\<close>\<close>

text \<open>The pair contains the partition name and if it should use ECC clear.\<close>

type_synonym PartClear = "string \<times> bool"

text \<open>
  The body of the \<^verbatim>\<open>while\<close> loop for one line: \<open>None\<close> is every \<^verbatim>\<open>continue\<close> and
  the fall-through of a line without \<^verbatim>\<open>F\<close>; \<open>Some\<close> is the \<^verbatim>\<open>emplace_back\<close>.
\<close>

definition parse_line :: "string \<Rightarrow> PartClear option" where
  "parse_line line =
     (case find_string line (CHR ''['') of
        None \<Rightarrow> None
      | Some pos \<Rightarrow>
          (let flags = substr line pos
           in if find_string flags (CHR ''F'') \<noteq> None
              then (case find_first_of line (CHR '' '') of
                      None \<Rightarrow> None
                    | Some p1 \<Rightarrow>
                        (let line1 = substr line p1
                         in case find_first_not_of line1 (CHR '' '') of
                              None \<Rightarrow> None
                            | Some p2 \<Rightarrow>
                                (let line2 = substr line1 p2
                                 in case find_first_of line2 (CHR '' '') of
                                      None \<Rightarrow> None
                                    | Some p3 \<Rightarrow>
                                        (let line3 = substr2 line2 0 p3;
                                             ecc = (find_string flags (CHR ''E'') \<noteq> None)
                                         in Some (line3, ecc)))))
              else None))"

text \<open>
  The loop \<^verbatim>\<open>while (std::getline(iss, line))\<close>: it runs while the stream has not
  failed after the extraction.
\<close>

function getPartsToClear_loop ::
  "istream \<Rightarrow> string \<Rightarrow> PartClear list \<Rightarrow> PartClear list" where
  "getPartsToClear_loop iss line ret =
     (case getline iss line (CHR 0x0A) of
        (line', iss') \<Rightarrow>
          if fail iss' then ret
          else (case parse_line line' of
                  None \<Rightarrow> getPartsToClear_loop iss' line' ret
                | Some p \<Rightarrow> getPartsToClear_loop iss' line' (ret @ [p])))"
  by pat_completeness auto

lemma getline_progress:
  assumes "getline iss line delim = (line', iss')" and "\<not> fail iss'"
  shows "length (chars iss') - gpos iss' < length (chars iss) - gpos iss"
proof -
  let ?rest = "drop (gpos iss) (chars iss)"
  let ?line = "takeWhile (\<lambda>c. c \<noteq> delim) ?rest"
  from assms have g: "good iss"
    by (auto simp: getline_def sentry_def fail_def split: if_splits)
  have le: "length ?line \<le> length ?rest"
    by (rule length_takeWhile_le)
  show ?thesis
  proof (cases "length ?line < length ?rest")
    case True
    with assms g have "gpos iss' = gpos iss + length ?line + 1" "chars iss' = chars iss"
      by (auto simp: getline_def sentry_def Let_def)
    with True show ?thesis by simp
  next
    case False
    with assms g have "gpos iss' = gpos iss + length ?line" "chars iss' = chars iss"
      "?line \<noteq> []"
      by (auto simp: getline_def sentry_def Let_def fail_def)
    moreover from \<open>?line \<noteq> []\<close> have pos: "0 < length ?line" by simp
    moreover from pos le have "0 < length ?rest" by linarith
    ultimately show ?thesis using False le by simp
  qed
qed

termination getPartsToClear_loop
  by (relation "measure (\<lambda>(iss, line, ret). length (chars iss) - gpos iss)")
     (auto dest: getline_progress [OF sym])

definition getPartsToClear :: "string \<Rightarrow> PartClear list" where
  "getPartsToClear info = getPartsToClear_loop (istringstream info) [] []"

section \<open>The outside world\<close>

text \<open>
  Everything the code does to its environment is recorded, in order, in a trace of
  events. What the environment answers is a parameter: the answer to a call may depend on
  everything that happened before it.
\<close>

datatype level = ERR | INFO

datatype entry = EntryInt string int | EntryStr string string

datatype event =
    Mkdtemp string
  | Popen string
  | Pclose
  | IfstreamOpen string
  | RemoveAll string
  | Log level string "entry list"
  | HiomapdSuspend
  | HiomapdResume

datatype exn = RuntimeError string | FilesystemError

text \<open>
  \<open>temp_directory_path\<close> gives the directory for temporary files, or \<open>None\<close> when
  \<^verbatim>\<open>fs::temp_directory_path()\<close> throws \<^verbatim>\<open>fs::filesystem_error\<close> (the path that the
  environment names does not exist or is not a directory).
  \<open>mkdtemp\<close> gives the directory created from the template, or \<open>None\<close> for a null
  return. \<open>popen\<close> gives \<open>None\<close> for a null pipe, otherwise the buffers that the
  successive \<^verbatim>\<open>fgets\<close> calls deliver and the value of \<^verbatim>\<open>pclose\<close>. \<open>file_bytes\<close> is the
  content of a file when it is opened (\<open>None\<close>: it cannot be opened). \<open>remove_all\<close>
  gives the message of the error code, \<open>None\<close> when the code is clear. \<open>stack_bytes\<close>
  is what the uninitialised array \<^verbatim>\<open>magic\<close> holds before the read.
\<close>

record env =
  temp_directory_path :: "event list \<Rightarrow> string option"
  mkdtemp :: "event list \<Rightarrow> string \<Rightarrow> string option"
  popen :: "event list \<Rightarrow> string \<Rightarrow> (string list \<times> int) option"
  file_bytes :: "event list \<Rightarrow> string \<Rightarrow> string option"
  remove_all :: "event list \<Rightarrow> string \<Rightarrow> string option"
  stack_bytes :: "8 word list"

text \<open>\<^verbatim>\<open>fs::path::operator/\<close> on a POSIX system.\<close>

definition path_append :: "string \<Rightarrow> string \<Rightarrow> string" where
  "path_append p q =
     (if q \<noteq> [] \<and> hd q = CHR ''/'' then q
      else if p = [] \<or> last p = CHR ''/'' then p @ q
      else p @ ''/'' @ q)"

section \<open>Running pflash: \<^verbatim>\<open>utils::pflash\<close>\<close>

text \<open>The loop \<^verbatim>\<open>while (fgets(...) != nullptr) result << buffer.data()\<close>.\<close>

fun fgets_loop :: "string list \<Rightarrow> string \<Rightarrow> string" where
  "fgets_loop [] result = result"
| "fgets_loop (buffer # rest) result = fgets_loop rest (result @ buffer)"

definition pflash :: "env \<Rightarrow> event list \<Rightarrow> string list \<Rightarrow> event list \<times> (exn + int \<times> string)" where
  "pflash w tr ts =
     (let cmd = concat_string (''pflash'' # ts)
      in case popen w tr cmd of
           None \<Rightarrow> (tr @ [Popen cmd], Inl (RuntimeError ''popen() failed!''))
         | Some (buffers, rc) \<Rightarrow> (tr @ [Popen cmd, Pclose], Inr (rc, fgets_loop buffers [])))"

section \<open>Reading the version: \<^verbatim>\<open>utils::getPNORVersion\<close>\<close>

definition MAGIC :: "8 word list" where
  "MAGIC = [0x17, 0x08, 0x20, 0x11]"

definition MAGIC_SIZE :: nat where
  "MAGIC_SIZE = 4"

text \<open>\<^verbatim>\<open>std::memcmp(a, b, n) == 0\<close>.\<close>

definition memcmp_eq :: "8 word list \<Rightarrow> 8 word list \<Rightarrow> nat \<Rightarrow> bool" where
  "memcmp_eq a b n = (take n a = take n b)"

text \<open>
  Lines 90 to 103: open the file, read four bytes into \<^verbatim>\<open>magic\<close> (the bytes that
  are not read keep what the array held), seek to the start, skip 4096 bytes when the
  array equals \<^verbatim>\<open>MAGIC\<close>, and read up to the first NUL.
\<close>

definition read_version :: "8 word list \<Rightarrow> string option \<Rightarrow> string" where
  "read_version stack file =
     (let f0 = ifstream file;
          (got, f1) = istream_read f0 MAGIC_SIZE;
          magic = map of_char got @ drop (length got) stack;
          f2 = seekg_beg f1 0;
          f3 = (if memcmp_eq magic MAGIC MAGIC_SIZE then istream_ignore f2 4096 else f2);
          (version, f4) = getline f3 [] (CHR 0x00)
      in version)"

text \<open>
  The two calls that can throw are \<^verbatim>\<open>fs::temp_directory_path()\<close> at line 71, before
  anything else is done, and \<^verbatim>\<open>pflash\<close> at line 82. Nothing in the function catches
  either exception. (Exhaustion of memory is left aside.)
\<close>

definition getPNORVersion :: "env \<Rightarrow> event list \<Rightarrow> event list \<times> (exn + string)" where
  "getPNORVersion w tr =
     (case temp_directory_path w tr of
        None \<Rightarrow> (tr, Inl FilesystemError)
      | Some tmp \<Rightarrow>
     (let tmpl = path_append tmp ''versionXXXXXX''
      in case mkdtemp w tr tmpl of
           None \<Rightarrow> (tr @ [Mkdtemp tmpl, Log ERR ''Failed to create temp dir'' []], Inr [])
         | Some tmpDir \<Rightarrow>
             (let versionFile = path_append tmpDir ''version''
              in case pflash w (tr @ [Mkdtemp tmpl])
                        [''-P VERSION -r'', versionFile, ''2>&1 > /dev/null''] of
                   (tr1, Inl e) \<Rightarrow> (tr1, Inl e)
                 | (tr1, Inr (rc, r)) \<Rightarrow>
                     if rc \<noteq> 0
                     then (tr1 @ [Log ERR ''Failed to read VERSION'' [EntryInt ''RETURNCODE'' rc]],
                           Inr [])
                     else
                       (let version = read_version (stack_bytes w) (file_bytes w tr1 versionFile);
                            tr2 = tr1 @ [IfstreamOpen versionFile]
                        in case remove_all w tr2 tmpDir of
                             None \<Rightarrow> (tr2 @ [RemoveAll tmpDir], Inr version)
                           | Some msg \<Rightarrow>
                               (tr2 @ [RemoveAll tmpDir,
                                       Log ERR ''Failed to remove temp dir''
                                         [EntryStr ''DIR'' tmpDir, EntryStr ''ERR'' msg]],
                                Inr version)))))"

section \<open>Clearing partitions\<close>

definition pnorClear :: "env \<Rightarrow> event list \<Rightarrow> string \<Rightarrow> bool \<Rightarrow> event list \<times> (exn + unit)" where
  "pnorClear w tr part shouldEcc =
     (case pflash w tr [''-P'', part, if shouldEcc then ''-c'' else ''-e'', ''-f >/dev/null''] of
        (tr1, Inl e) \<Rightarrow> (tr1, Inl e)
      | (tr1, Inr (rc, out)) \<Rightarrow>
          if rc \<noteq> 0
          then (tr1 @ [Log ERR ''Failed to clear partition''
                         [EntryStr ''PART'' part, EntryInt ''RETURNCODE'' rc]], Inr ())
          else (tr1 @ [Log INFO ''Clear partition successfully'' [EntryStr ''PART'' part]],
                Inr ()))"

text \<open>The default argument \<^verbatim>\<open>shouldEcc = true\<close>.\<close>

definition pnorClear_default :: "env \<Rightarrow> event list \<Rightarrow> string \<Rightarrow> event list \<times> (exn + unit)" where
  "pnorClear_default w tr part = pnorClear w tr part True"

text \<open>Get partitions that should be cleared: the overload without arguments.\<close>

definition getPartsToClear_pflash :: "env \<Rightarrow> event list \<Rightarrow> event list \<times> (exn + PartClear list)" where
  "getPartsToClear_pflash w tr =
     (case pflash w tr [''-i | grep ^ID | grep '' @ [CHR 0x27] @ ''F'' @ [CHR 0x27]] of
        (tr1, Inl e) \<Rightarrow> (tr1, Inl e)
      | (tr1, Inr (rc, pflashInfo)) \<Rightarrow> (tr1, Inr (getPartsToClear pflashInfo)))"

text \<open>The loop \<^verbatim>\<open>for (auto p : partitions)\<close> of \<^verbatim>\<open>ItemUpdaterStatic::reset\<close>.\<close>

fun reset_loop :: "env \<Rightarrow> event list \<Rightarrow> PartClear list \<Rightarrow> event list \<times> (exn + unit)" where
  "reset_loop w tr [] = (tr, Inr ())"
| "reset_loop w tr (p # partitions) =
     (case pnorClear w tr (fst p) (snd p) of
        (tr1, Inl e) \<Rightarrow> (tr1, Inl e)
      | (tr1, Inr u) \<Rightarrow> reset_loop w tr1 partitions)"

text \<open>
  Modelled from the spec: \<^verbatim>\<open>utils::hiomapdSuspend\<close> and \<^verbatim>\<open>utils::hiomapdResume\<close>
  (\<^verbatim>\<open>utils.cpp\<close>) are signals to the access mediation service that give nothing back to
  the caller; each is one event.
\<close>

definition hiomapdSuspend :: "event list \<Rightarrow> event list" where
  "hiomapdSuspend tr = tr @ [HiomapdSuspend]"

definition hiomapdResume :: "event list \<Rightarrow> event list" where
  "hiomapdResume tr = tr @ [HiomapdResume]"

definition ItemUpdaterStatic_reset :: "env \<Rightarrow> event list \<Rightarrow> event list \<times> (exn + unit)" where
  "ItemUpdaterStatic_reset w tr =
     (case getPartsToClear_pflash w tr of
        (tr1, Inl e) \<Rightarrow> (tr1, Inl e)
      | (tr1, Inr partitions) \<Rightarrow>
          (case reset_loop w (hiomapdSuspend tr1) partitions of
             (tr2, Inl e) \<Rightarrow> (tr2, Inl e)
           | (tr2, Inr u) \<Rightarrow> (hiomapdResume tr2, Inr ())))"

definition GardResetStatic_reset :: "env \<Rightarrow> event list \<Rightarrow> event list \<times> (exn + unit)" where
  "GardResetStatic_reset w tr =
     (case pnorClear_default w (hiomapdSuspend tr) ''GUARD'' of
        (tr1, Inl e) \<Rightarrow> (tr1, Inl e)
      | (tr1, Inr u) \<Rightarrow> (hiomapdResume tr1, Inr ()))"

section \<open>The item updater: \<^verbatim>\<open>ItemUpdaterStatic\<close>\<close>

datatype Activations = Active | Invalid

datatype VersionPurpose = Host

datatype edge = ActiveEdge | UpdateableEdge | FunctionalEdge

record ActivationStatic =
  objPath :: string
  versionId :: string
  extVersion :: string
  activation :: Activations
  associations :: "(string \<times> string \<times> string) list"
  redundancyPriority :: "8 word option"

record Version =
  versionPath :: string
  versionKey :: string
  versionStr :: string
  versionPurpose :: VersionPurpose
  filePath :: string
  deleteObject :: bool

record ItemUpdaterStatic =
  activations :: "string \<rightharpoonup> ActivationStatic"
  versions :: "string \<rightharpoonup> Version"
  functionalVersionId :: string
  assocs :: "(edge \<times> string) list"

text \<open>
  What \<^verbatim>\<open>config.h\<close> and \<^verbatim>\<open>version.hpp\<close> provide: the object paths and
  association names, and the two functions of \<^verbatim>\<open>Version\<close> that split the version
  text and derive the id from the version.
\<close>

record deps =
  SOFTWARE_OBJPATH :: string
  ACTIVATION_FWD_ASSOCIATION :: string
  ACTIVATION_REV_ASSOCIATION :: string
  HOST_INVENTORY_PATH :: string
  getVersions :: "string \<Rightarrow> string \<times> string"
  getId :: "string \<Rightarrow> string"

text \<open>
  Modelled from the spec: \<^verbatim>\<open>ItemUpdater::createActiveAssociation\<close> of the base class
  (\<^verbatim>\<open>item_updater.cpp\<close>) marks the image path as the target of the active association.
\<close>

definition createActiveAssociation :: "ItemUpdaterStatic \<Rightarrow> string \<Rightarrow> ItemUpdaterStatic" where
  "createActiveAssociation this path = this\<lparr>assocs := assocs this @ [(ActiveEdge, path)]\<rparr>"

text \<open>
  Modelled from the spec: \<^verbatim>\<open>ItemUpdater::createUpdateableAssociation\<close> of the base class
  (\<^verbatim>\<open>item_updater.cpp\<close>) attaches the updateable association to the image path.
\<close>

definition createUpdateableAssociation :: "ItemUpdaterStatic \<Rightarrow> string \<Rightarrow> ItemUpdaterStatic" where
  "createUpdateableAssociation this path = this\<lparr>assocs := assocs this @ [(UpdateableEdge, path)]\<rparr>"

text \<open>
  Modelled from the spec: \<^verbatim>\<open>ItemUpdater::updateFunctionalAssociation\<close> of the base class
  (\<^verbatim>\<open>item_updater.cpp\<close>) attaches the functional association to the path of the
  version id.
\<close>

definition ItemUpdater_updateFunctionalAssociation ::
  "deps \<Rightarrow> ItemUpdaterStatic \<Rightarrow> string \<Rightarrow> ItemUpdaterStatic" where
  "ItemUpdater_updateFunctionalAssociation d this vid =
     this\<lparr>assocs := assocs this @ [(FunctionalEdge, path_append (SOFTWARE_OBJPATH d) vid)]\<rparr>"

definition updateFunctionalAssociation ::
  "deps \<Rightarrow> ItemUpdaterStatic \<Rightarrow> string \<Rightarrow> ItemUpdaterStatic" where
  "updateFunctionalAssociation d this vid =
     ItemUpdater_updateFunctionalAssociation d (this\<lparr>functionalVersionId := vid\<rparr>) vid"


text \<open>\<^verbatim>\<open>std::map::insert\<close>: a key that is present keeps its value.\<close>

definition map_insert :: "('k \<rightharpoonup> 'v) \<Rightarrow> 'k \<Rightarrow> 'v \<Rightarrow> ('k \<rightharpoonup> 'v)" where
  "map_insert m k v = (case m k of None \<Rightarrow> m(k \<mapsto> v) | Some old \<Rightarrow> m)"

text \<open>\<^verbatim>\<open>m.find(k)->second->field = ...\<close> for a key that is present.\<close>

definition map_modify :: "('k \<rightharpoonup> 'v) \<Rightarrow> 'k \<Rightarrow> ('v \<Rightarrow> 'v) \<Rightarrow> ('k \<rightharpoonup> 'v)" where
  "map_modify m k f = (case m k of None \<Rightarrow> m | Some v \<Rightarrow> m(k \<mapsto> f v))"

definition processPNORImage ::
  "deps \<Rightarrow> env \<Rightarrow> event list \<Rightarrow> ItemUpdaterStatic \<Rightarrow> event list \<times> (exn + ItemUpdaterStatic)" where
  "processPNORImage d w tr this =
     (case getPNORVersion w tr of
        (tr1, Inl e) \<Rightarrow> (tr1, Inl e)
      | (tr1, Inr fullVersion) \<Rightarrow>
          (let (version, extendedVersion) = getVersions d fullVersion;
               id = getId d version
           in if id = [] then (tr1, Inr this)
              else
                (let (tr2, activationState1) =
                       (if version = []
                        then (tr1 @ [Log ERR ''Failed to read version''
                                       [EntryStr ''VERSION'' fullVersion]], Invalid)
                        else (tr1, Active));
                     (tr3, activationState) =
                       (if extendedVersion = []
                        then (tr2 @ [Log ERR ''Failed to read extendedVersion''
                                       [EntryStr ''VERSION'' fullVersion]], Invalid)
                        else (tr2, activationState1));
                     purpose = Host;
                     path = path_append (SOFTWARE_OBJPATH d) id;
                     (associations1, this1) =
                       (if activationState = Active
                        then ([(ACTIVATION_FWD_ASSOCIATION d, ACTIVATION_REV_ASSOCIATION d,
                                HOST_INVENTORY_PATH d)],
                              createActiveAssociation this path)
                        else ([], this));
                     this2 = createUpdateableAssociation this1 path;
                     this3 = this2\<lparr>activations :=
                               map_insert (activations this2) id
                                 \<lparr>objPath = path, versionId = id, extVersion = extendedVersion,
                                  activation = activationState, associations = associations1,
                                  redundancyPriority = None\<rparr>\<rparr>;
                     this4 =
                       (if activationState = Active
                        then this3\<lparr>activations :=
                               map_modify (activations this3) id
                                 (\<lambda>a. a\<lparr>redundancyPriority := Some 0\<rparr>)\<rparr>
                        else this3);
                     versionPtr = \<lparr>versionPath = path, versionKey = id, versionStr = version,
                                   versionPurpose = purpose, filePath = [], deleteObject = True\<rparr>;
                     this5 = this4\<lparr>versions := map_insert (versions this4) id versionPtr\<rparr>;
                     this6 = (if id \<noteq> [] then updateFunctionalAssociation d this5 id else this5)
                 in (tr3, Inr this6))))"

text \<open>
  The constructor leaves the maps empty and the functional version id the empty string
  before it calls \<^verbatim>\<open>processPNORImage\<close>.
\<close>

definition ItemUpdaterStatic_init :: ItemUpdaterStatic where
  "ItemUpdaterStatic_init =
     \<lparr>activations = Map.empty, versions = Map.empty, functionalVersionId = [], assocs = []\<rparr>"

section \<open>Concrete environments\<close>

text \<open>
  An environment in which the temporary directory can be created, every pflash run can
  be started and ends with the given status, the version file has the given content and
  the directory can be removed.
\<close>

definition example_env :: "string option \<Rightarrow> int \<Rightarrow> env" where
  "example_env file rc =
     \<lparr>temp_directory_path = (\<lambda>tr. Some ''/tmp''),
      mkdtemp = (\<lambda>tr tmpl. Some ''/tmp/versionAbCdEf''),
      popen = (\<lambda>tr cmd. Some ([], rc)),
      file_bytes = (\<lambda>tr name. file),
      remove_all = (\<lambda>tr dir. None),
      stack_bytes = [0, 0, 0, 0]\<rparr>"

text \<open>
  A stand-in for the collaborators: the version is the first line of the text, the
  extended version is the rest, the id is a prefix of the version.
\<close>

definition example_deps :: deps where
  "example_deps =
     \<lparr>SOFTWARE_OBJPATH = ''/xyz/openbmc_project/software'',
      ACTIVATION_FWD_ASSOCIATION = ''inventory'',
      ACTIVATION_REV_ASSOCIATION = ''activation'',
      HOST_INVENTORY_PATH = ''/xyz/openbmc_project/inventory/system/chassis'',
      getVersions = (\<lambda>s. (takeWhile (\<lambda>c. c \<noteq> CHR 0x0A) s,
                             drop 1 (dropWhile (\<lambda>c. c \<noteq> CHR 0x0A) s))),
      getId = take 8\<rparr>"

text \<open>An environment in which pflash can never be started.\<close>

definition popen_fail_env :: env where
  "popen_fail_env = (example_env None 0)\<lparr>popen := (\<lambda>tr cmd. None)\<rparr>"

text \<open>An environment in which \<^verbatim>\<open>fs::temp_directory_path()\<close> throws.\<close>

definition tmpdir_fail_env :: env where
  "tmpdir_fail_env = (example_env None 0)\<lparr>temp_directory_path := (\<lambda>tr. None)\<rparr>"

text \<open>An environment in which the temporary directory cannot be created.\<close>

definition mkdtemp_fail_env :: env where
  "mkdtemp_fail_env = (example_env None 0)\<lparr>mkdtemp := (\<lambda>tr tmpl. None)\<rparr>"

section \<open>Notions used to state the properties\<close>

text \<open>
  The lines of a listing: the text is cut at every newline; text after the last newline
  is a line when it is not empty.
\<close>

function lines_of :: "string \<Rightarrow> string list" where
  "lines_of s =
     (if s = [] then []
      else takeWhile (\<lambda>c. c \<noteq> CHR 0x0A) s
           # lines_of (drop 1 (dropWhile (\<lambda>c. c \<noteq> CHR 0x0A) s)))"
  by pat_completeness auto
termination
proof (relation "measure length")
  show "wf (measure length)" by simp
next
  fix s :: string
  assume "s \<noteq> []"
  moreover have "length (dropWhile (\<lambda>c. c \<noteq> CHR 0x0A) s) \<le> length s"
    by (rule length_dropWhile_le)
  ultimately show "(drop 1 (dropWhile (\<lambda>c. c \<noteq> CHR 0x0A) s), s) \<in> measure length"
    by (cases s) auto
qed

declare lines_of.simps [simp del]
declare getPartsToClear_loop.simps [simp del]

text \<open>The text of a line from its first opening bracket to its end.\<close>

definition flag_text :: "string \<Rightarrow> string" where
  "flag_text line = dropWhile (\<lambda>c. c \<noteq> CHR ''['') line"

text \<open>
  The bracketed flag field of a line: the text after its first opening bracket, up to
  the closing bracket that follows.
\<close>

definition bracketed_flags :: "string \<Rightarrow> string" where
  "bracketed_flags line = takeWhile (\<lambda>c. c \<noteq> CHR '']'') (drop 1 (flag_text line))"

text \<open>A blob that begins with the four magic bytes.\<close>

definition has_magic :: "string \<Rightarrow> bool" where
  "has_magic blob = (take 4 blob = [CHR 0x17, CHR 0x08, CHR 0x20, CHR 0x11])"

text \<open>
  A signed version partition: the magic bytes, the rest of the 4K header, the version
  text, a NUL and padding.
\<close>

definition signed_blob :: string where
  "signed_blob =
     [CHR 0x17, CHR 0x08, CHR 0x20, CHR 0x11] @ replicate 4092 (CHR 0x00)
       @ ''open-power-v2'' @ [CHR 0x00] @ ''padding''"

text \<open>The template and the command line that \<^verbatim>\<open>getPNORVersion\<close> uses.\<close>

definition version_tmpl :: "string \<Rightarrow> string" where
  "version_tmpl tmp = path_append tmp ''versionXXXXXX''"

definition version_cmd :: "string \<Rightarrow> string" where
  "version_cmd tmpDir =
     concat_string [''pflash'', ''-P VERSION -r'', path_append tmpDir ''version'',
                    ''2>&1 > /dev/null'']"

text \<open>The command lines of the partition listing and of the clear of one partition.\<close>

definition discovery_cmd :: string where
  "discovery_cmd =
     concat_string [''pflash'', ''-i | grep ^ID | grep '' @ [CHR 0x27] @ ''F'' @ [CHR 0x27]]"

definition clear_cmd :: "PartClear \<Rightarrow> string" where
  "clear_cmd p =
     concat_string [''pflash'', ''-P'', fst p, if snd p then ''-c'' else ''-e'',
                    ''-f >/dev/null'']"

text \<open>The events of one clear of a partition that ends with status \<open>rc\<close>.\<close>

definition clear_events :: "PartClear \<Rightarrow> int \<Rightarrow> event list" where
  "clear_events p rc =
     [Popen (clear_cmd p), Pclose,
      if rc \<noteq> 0
      then Log ERR ''Failed to clear partition''
             [EntryStr ''PART'' (fst p), EntryInt ''RETURNCODE'' rc]
      else Log INFO ''Clear partition successfully'' [EntryStr ''PART'' (fst p)]]"

definition clears_events :: "PartClear list \<Rightarrow> int list \<Rightarrow> event list" where
  "clears_events ps rcs = concat (map2 clear_events ps rcs)"

fun is_Popen :: "event \<Rightarrow> bool" where
  "is_Popen (Popen cmd) = True"
| "is_Popen e = False"

text \<open>
  The exit statuses of the clears of the candidates, in order, up to the first clear that
  cannot be started.
\<close>

fun clear_statuses :: "env \<Rightarrow> event list \<Rightarrow> PartClear list \<Rightarrow> int list" where
  "clear_statuses w tr [] = []"
| "clear_statuses w tr (p # ps) =
     (case popen w tr (clear_cmd p) of
        None \<Rightarrow> []
      | Some (buffers, rc) \<Rightarrow> rc # clear_statuses w (tr @ clear_events p rc) ps)"

text \<open>Every pflash run can be started, whatever happened before.\<close>

definition popen_ok :: "env \<Rightarrow> bool" where
  "popen_ok w = (\<forall>tr cmd. popen w tr cmd \<noteq> None)"

text \<open>
  An environment whose partition listing has one reset candidate among three lines,
  and in which every clear ends with the given status.
\<close>

definition listing :: string where
  "listing =
     ''ID=06 MVPD 0x0012d000..0x001bd000 (actual=0x00090000) [E--P--F-C-]'' @ [CHR 0x0A]
     @ ''ID=07 HBB 0x001bd000..0x001cd000 (actual=0x00010000) [EL--------]'' @ [CHR 0x0A]"

definition listing_env :: "int \<Rightarrow> env" where
  "listing_env rc =
     (example_env None 0)
       \<lparr>popen := (\<lambda>tr cmd. if cmd = discovery_cmd then Some ([listing], 0) else Some ([], rc))\<rparr>"

text \<open>The same listing, but no clear can be started.\<close>

definition clear_fail_env :: env where
  "clear_fail_env =
     (example_env None 0)
       \<lparr>popen := (\<lambda>tr cmd. if cmd = discovery_cmd then Some ([listing], 0) else None)\<rparr>"


definition processPNORImage_call ::
  "deps \<Rightarrow> ItemUpdaterStatic \<Rightarrow> env \<times> event list \<Rightarrow> ItemUpdaterStatic" where
  "processPNORImage_call d this c =
     (case processPNORImage d (fst c) (snd c) this of
        (tr1, Inl e) \<Rightarrow> this
      | (tr1, Inr this') \<Rightarrow> this')"


text \<open>
  Two version texts with the same version, one without and one with an extended version,
  and the updater after the image with each of them has been processed once from the
  initial state.
\<close>

definition plain_text :: string where
  "plain_text = ''open-power-v1''"

definition extended_text :: string where
  "extended_text = ''open-power-v1'' @ [CHR 0x0A] @ ''extra''"

definition updater_after_plain :: ItemUpdaterStatic where
  "updater_after_plain =
     processPNORImage_call example_deps ItemUpdaterStatic_init
       (example_env (Some plain_text) 0, [])"

definition updater_after_extended :: ItemUpdaterStatic where
  "updater_after_extended =
     processPNORImage_call example_deps ItemUpdaterStatic_init
       (example_env (Some extended_text) 0, [])"

section \<open>Image processing\<close>

text \<open>
  Claim C7. When \<^verbatim>\<open>getPNORVersion\<close> returns a text from which an empty id is derived,
  \<^verbatim>\<open>processPNORImage\<close> returns normally and leaves the updater as it was: no activation
  and no version is registered, no association is created and the functional version id
  is unchanged. No event is added to those of the version read.
\<close>

theorem processPNORImage_empty_id:
  assumes "getPNORVersion w tr = (tr1, Inr fullVersion)"
    and "getId d (fst (getVersions d fullVersion)) = []"
  shows "processPNORImage d w tr this = (tr1, Inr this)"
  using assms by (simp add: processPNORImage_def split_beta Let_def)

theorem processPNORImage_empty_id_witness:
  "snd (getPNORVersion (example_env (Some []) 0) []) = Inr []
   \<and> getId example_deps (fst (getVersions example_deps [])) = []
   \<and> snd (processPNORImage example_deps (example_env (Some []) 0) [] ItemUpdaterStatic_init)
       = Inr ItemUpdaterStatic_init"
proof -
  obtain tr1 where v: "getPNORVersion (example_env (Some []) 0) [] = (tr1, Inr [])"
    by (simp add: getPNORVersion_def example_env_def path_append_def pflash_def Let_def
        read_version_def ifstream_def istream_read_def sentry_def good_def MAGIC_SIZE_def
        seekg_beg_def memcmp_eq_def MAGIC_def getline_def)
  have i: "getId example_deps (fst (getVersions example_deps [])) = []"
    by (simp add: example_deps_def)
  from processPNORImage_empty_id [OF v i, of ItemUpdaterStatic_init] v i
  show ?thesis by simp
qed

section \<open>The partition listing\<close>

lemma find_if_None: "find_if P s = None \<longleftrightarrow> (\<forall>c \<in> set s. \<not> P c)"
  by (induction s) (auto split: option.splits)

lemma find_if_Some:
  "find_if P s = Some i \<Longrightarrow> i = length (takeWhile (\<lambda>c. \<not> P c) s) \<and> i < length s"
  by (induction s arbitrary: i) (auto split: option.splits if_splits)

lemma find_if_drop: "find_if P s = Some i \<Longrightarrow> drop i s = dropWhile (\<lambda>c. \<not> P c) s"
  by (auto dest!: find_if_Some simp: dropWhile_eq_drop)

lemma parse_line_Some:
  assumes "parse_line line = Some (part, ecc)"
  shows "CHR ''['' \<in> set line \<and> CHR ''F'' \<in> set (flag_text line)
         \<and> (ecc \<longleftrightarrow> CHR ''E'' \<in> set (flag_text line))"
proof -
  from assms obtain pos where p: "find_string line (CHR ''['') = Some pos"
    by (auto simp: parse_line_def split: option.splits)
  then have fl: "substr line pos = flag_text line"
    by (simp add: find_string_def substr_def flag_text_def find_if_drop)
  from p have br: "CHR ''['' \<in> set line"
    using find_if_None [of "\<lambda>x. x = CHR ''[''" line] by (auto simp: find_string_def)
  from assms p fl have "find_string (flag_text line) (CHR ''F'') \<noteq> None"
    and "ecc = (find_string (flag_text line) (CHR ''E'') \<noteq> None)"
    by (auto simp: parse_line_def Let_def split: option.splits if_splits)
  then show ?thesis using br
    by (auto simp: find_string_def find_if_None)
qed

lemma parse_line_None:
  assumes "CHR ''['' \<notin> set line \<or> CHR ''F'' \<notin> set (flag_text line)"
  shows "parse_line line = None"
proof (cases "parse_line line")
  case None
  then show ?thesis .
next
  case (Some p)
  then have "parse_line line = Some (fst p, snd p)" by simp
  from parse_line_Some [OF this] assms show ?thesis by blast
qed

lemma getline_delim:
  assumes "good s"
    and "length (takeWhile (\<lambda>c. c \<noteq> d) (drop (gpos s) (chars s)))
           < length (drop (gpos s) (chars s))"
  shows "getline s str d =
    (takeWhile (\<lambda>c. c \<noteq> d) (drop (gpos s) (chars s)),
     s\<lparr>gpos := gpos s + length (takeWhile (\<lambda>c. c \<noteq> d) (drop (gpos s) (chars s))) + 1\<rparr>)"
  using assms unfolding getline_def sentry_def Let_def by simp

lemma getline_eof:
  assumes "good s"
    and "\<not> length (takeWhile (\<lambda>c. c \<noteq> d) (drop (gpos s) (chars s)))
             < length (drop (gpos s) (chars s))"
  shows "getline s str d =
    (takeWhile (\<lambda>c. c \<noteq> d) (drop (gpos s) (chars s)),
     s\<lparr>gpos := gpos s + length (takeWhile (\<lambda>c. c \<noteq> d) (drop (gpos s) (chars s))),
       eofbit := True,
       failbit := (takeWhile (\<lambda>c. c \<noteq> d) (drop (gpos s) (chars s)) = [])\<rparr>)"
  using assms unfolding getline_def sentry_def Let_def by simp

lemma getline_from:
  assumes "good s"
  shows "fst (getline s str d) = takeWhile (\<lambda>c. c \<noteq> d) (drop (gpos s) (chars s))"
  using assms unfolding getline_def sentry_def Let_def by simp

lemma getline_not_good:
  assumes "\<not> good s"
  shows "fst (getline s str d) = str"
  using assms unfolding getline_def sentry_def by simp

lemma loop_not_good:
  "\<not> good iss \<Longrightarrow> getPartsToClear_loop iss line ret = ret"
  by (subst getPartsToClear_loop.simps) (simp add: getline_def sentry_def fail_def)

lemma loop_lines:
  "good iss \<Longrightarrow> getPartsToClear_loop iss line ret =
     ret @ List.map_filter parse_line (lines_of (drop (gpos iss) (chars iss)))"
proof (induction iss line ret rule: getPartsToClear_loop.induct)
  case (1 iss line ret)
  let ?rest = "drop (gpos iss) (chars iss)"
  let ?P = "\<lambda>c. c \<noteq> CHR 0x0A"
  let ?l = "takeWhile ?P ?rest"
  show ?case
  proof (cases "?rest = []")
    case True
    with "1.prems" show ?thesis
      by (subst getPartsToClear_loop.simps, subst lines_of.simps)
         (simp add: getline_def sentry_def fail_def Let_def List.map_filter_simps)
  next
    case ne: False
    show ?thesis
    proof (cases "length ?l < length ?rest")
      case True
      define iss' where "iss' = iss\<lparr>gpos := gpos iss + length ?l + 1\<rparr>"
      have g: "getline iss line (CHR 0x0A) = (?l, iss')"
        unfolding iss'_def by (rule getline_delim [OF "1.prems" True])
      have nf: "\<not> fail iss'" and gd: "good iss'"
        using "1.prems" by (simp_all add: iss'_def fail_def good_def)
      have dr: "drop (gpos iss') (chars iss') = drop 1 (dropWhile ?P ?rest)"
        by (simp add: iss'_def dropWhile_eq_drop add.commute)
      have ln: "lines_of ?rest = ?l # lines_of (drop (gpos iss') (chars iss'))"
        using ne by (subst lines_of.simps) (simp add: dr)
      show ?thesis
      proof (cases "parse_line ?l")
        case None
        from "1.IH"(1) [OF g [symmetric] nf None gd] None g nf ln show ?thesis
          by (subst getPartsToClear_loop.simps) (simp add: List.map_filter_simps)
      next
        case (Some p)
        from "1.IH"(2) [OF g [symmetric] nf Some gd] Some g nf ln show ?thesis
          by (subst getPartsToClear_loop.simps) (simp add: List.map_filter_simps)
      qed
    next
      case False
      have "length ?l + length (dropWhile ?P ?rest) = length ?rest"
        by (metis length_append takeWhile_dropWhile_id)
      with False have "length (dropWhile ?P ?rest) = 0" by linarith
      then have dw: "dropWhile ?P ?rest = []" by (simp only: length_0_conv)
      then have all: "?l = ?rest"
        by (metis takeWhile_dropWhile_id append_Nil2)
      define iss' where
        "iss' = iss\<lparr>gpos := gpos iss + length ?l, eofbit := True, failbit := (?l = [])\<rparr>"
      have g: "getline iss line (CHR 0x0A) = (?l, iss')"
        unfolding iss'_def by (rule getline_eof [OF "1.prems" False])
      from all ne have lne: "?l \<noteq> []" by (simp only: not_False_eq_True)
      have nf: "\<not> fail iss'" and ngd: "\<not> good iss'"
        using lne by (simp_all add: iss'_def fail_def good_def)
      have e: "lines_of [] = []"
        by (subst lines_of.simps) simp
      have "lines_of ?rest = ?l # lines_of (drop 1 (dropWhile ?P ?rest))"
        by (subst lines_of.simps) (simp only: ne if_False)
      then have ln: "lines_of ?rest = [?l]"
        by (simp only: dw drop_Nil e)
      show ?thesis
        using g nf ln loop_not_good [OF ngd]
        by (subst getPartsToClear_loop.simps)
           (simp add: List.map_filter_simps split: option.splits)
    qed
  qed
qed

lemma getPartsToClear_lines:
  "getPartsToClear info = List.map_filter parse_line (lines_of info)"
proof -
  have "good (istringstream info)"
    by (simp add: istringstream_def good_def)
  from loop_lines [OF this, of "[]" "[]"] show ?thesis
    by (simp add: getPartsToClear_def istringstream_def)
qed

text \<open>
  Claim C3, as stated, fails: the code takes as the flags of a line everything from its
  first opening bracket to the end of the line and never looks for the closing bracket.
  A line whose bracketed flag field has no \<^verbatim>\<open>F\<close>, followed by text that has one, yields a
  descriptor.
\<close>

theorem getPartsToClear_flag_outside_brackets:
  "getPartsToClear ''ID=06 MVPD 0x0012d000..0x001bd000 (actual=0x00090000) [E--P----C-] F''
     = [(''MVPD'', True)]
   \<and> bracketed_flags ''ID=06 MVPD 0x0012d000..0x001bd000 (actual=0x00090000) [E--P----C-] F''
     = ''E--P----C-''
   \<and> CHR ''F'' \<notin> set (bracketed_flags
        ''ID=06 MVPD 0x0012d000..0x001bd000 (actual=0x00090000) [E--P----C-] F'')"
  by code_simp

text \<open>
  Claim C3, amended. For every listing, \<^verbatim>\<open>getPartsToClear\<close> goes through the lines in
  order and returns, in that order, a descriptor for some of them. A line yields a
  descriptor only if it has an opening bracket and an \<^verbatim>\<open>F\<close> somewhere from its first
  opening bracket to its end; a line without an opening bracket or without such an
  \<^verbatim>\<open>F\<close> is dropped. The ECC mark of a descriptor is true exactly when an \<^verbatim>\<open>E\<close> occurs
  from the first opening bracket of its line to the end of the line.
\<close>

theorem getPartsToClear_flag_text:
  "getPartsToClear info = List.map_filter parse_line (lines_of info)
   \<and> (parse_line line = Some (part, ecc) \<longrightarrow>
        CHR ''['' \<in> set line \<and> CHR ''F'' \<in> set (flag_text line)
        \<and> (ecc \<longleftrightarrow> CHR ''E'' \<in> set (flag_text line)))
   \<and> (CHR ''['' \<notin> set line' \<or> CHR ''F'' \<notin> set (flag_text line') \<longrightarrow>
        parse_line line' = None)"
  using getPartsToClear_lines parse_line_Some parse_line_None by blast

theorem getPartsToClear_flag_text_witness:
  "parse_line ''ID=06 MVPD 0x0012d000..0x001bd000 (actual=0x00090000) [E--P--F-C-]''
     = Some (''MVPD'', True)
   \<and> CHR ''F'' \<notin>
       set (flag_text ''ID=07 HBB 0x001bd000..0x001cd000 (actual=0x00010000) [EL--------]'')
   \<and> lines_of listing =
       [''ID=06 MVPD 0x0012d000..0x001bd000 (actual=0x00090000) [E--P--F-C-]'',
        ''ID=07 HBB 0x001bd000..0x001cd000 (actual=0x00010000) [EL--------]'']
   \<and> getPartsToClear listing = [(''MVPD'', True)]
   \<and> CHR ''E'' \<in>
       set (flag_text ''ID=06 MVPD 0x0012d000..0x001bd000 (actual=0x00090000) [E--P--F-C-]'')
   \<and> parse_line ''ID=07 HBB 0x001bd000..0x001cd000 (actual=0x00010000) [EL--------]'' = None"
proof -
  let ?a = "''ID=06 MVPD 0x0012d000..0x001bd000 (actual=0x00090000) [E--P--F-C-]''"
  let ?b = "''ID=07 HBB 0x001bd000..0x001cd000 (actual=0x00010000) [EL--------]''"
  have a: "parse_line ?a = Some (''MVPD'', True)" by code_simp
  have b: "CHR ''F'' \<notin> set (flag_text ?b)" by code_simp
  have l: "lines_of listing = [?a, ?b]" by code_simp
  from getPartsToClear_flag_text [of listing ?a "''MVPD''" True ?b] a b l
  show ?thesis by (simp add: List.map_filter_simps)
qed

section \<open>Decoding the version blob\<close>

lemma of_char_nat_less: "(of_char c :: nat) < 256"
  by (cases c) simp

lemma of_char_word8_inj:
  assumes "(of_char c :: 8 word) = of_char d"
  shows "c = d"
proof -
  from assms have "(of_nat (of_char c) :: 8 word) = of_nat (of_char d)"
    by (simp only: of_nat_of_char)
  then have "(of_char c :: nat) mod 256 = of_char d mod 256"
    by (simp add: word_of_nat_eq_iff take_bit_eq_mod)
  then show ?thesis
    using of_char_nat_less [of c] of_char_nat_less [of d] by simp
qed

lemma memcmp_magic:
  assumes "length bytes = 4"
  shows "memcmp_eq (map of_char bytes) MAGIC MAGIC_SIZE
           = (bytes = [CHR 0x17, CHR 0x08, CHR 0x20, CHR 0x11])"
proof -
  have m: "MAGIC = map of_char [CHR 0x17, CHR 0x08, CHR 0x20, CHR 0x11]"
    by (simp add: MAGIC_def)
  have "inj (of_char :: char \<Rightarrow> 8 word)"
    by (rule injI) (rule of_char_word8_inj)
  then have "(map of_char bytes = (map of_char [CHR 0x17, CHR 0x08, CHR 0x20, CHR 0x11]
               :: 8 word list))
             = (bytes = [CHR 0x17, CHR 0x08, CHR 0x20, CHR 0x11])"
    by (rule inj_map_eq_map)
  with assms show ?thesis
    by (simp only: memcmp_eq_def MAGIC_SIZE_def m length_map take_all order_refl
        list.size)
qed

lemma read_version_ge4:
  assumes "4 \<le> length blob"
  shows "read_version stack (Some blob) =
     takeWhile (\<lambda>c. c \<noteq> CHR 0x00) (drop (if has_magic blob then 4096 else 0) blob)"
proof -
  define f1 where "f1 = \<lparr>chars = blob, gpos = 4, eofbit = False, failbit = False\<rparr>"
  define f2 where "f2 = \<lparr>chars = blob, gpos = 0, eofbit = False, failbit = False\<rparr>"
  have r: "istream_read (ifstream (Some blob)) MAGIC_SIZE = (take 4 blob, f1)"
    using assms
    by (simp add: istream_read_def ifstream_def sentry_def good_def MAGIC_SIZE_def Let_def
        f1_def)
  have s: "seekg_beg f1 0 = f2"
    by (simp add: seekg_beg_def sentry_def good_def f1_def f2_def)
  have l4: "length (take 4 blob) = 4"
    using assms by simp
  have m: "memcmp_eq (map of_char (take 4 blob) @ drop (length (take 4 blob)) stack)
             MAGIC MAGIC_SIZE = has_magic blob"
  proof -
    have "memcmp_eq (map of_char (take 4 blob) @ drop (length (take 4 blob)) stack)
             MAGIC MAGIC_SIZE = memcmp_eq (map of_char (take 4 blob)) MAGIC MAGIC_SIZE"
      using l4 by (simp add: memcmp_eq_def MAGIC_SIZE_def)
    then show ?thesis
      by (simp only: memcmp_magic [OF l4] has_magic_def)
  qed
  have rv: "read_version stack (Some blob) =
     fst (getline (if has_magic blob then istream_ignore f2 4096 else f2) [] (CHR 0x00))"
    using m by (simp add: read_version_def r s Let_def split_beta)
  show ?thesis
  proof (cases "has_magic blob")
    case False
    have "good f2" by (simp add: good_def f2_def)
    from getline_from [OF this] False rv show ?thesis
      by (simp add: f2_def)
  next
    case True
    show ?thesis
    proof (cases "length blob < 4096")
      case short: True
      then have "\<not> good (istream_ignore f2 4096)"
        by (simp add: istream_ignore_def sentry_def good_def f2_def Let_def)
      from getline_not_good [OF this] True rv short show ?thesis
        by simp
    next
      case long: False
      then have i: "istream_ignore f2 4096 = f2\<lparr>gpos := 4096\<rparr>"
        by (simp add: istream_ignore_def sentry_def good_def f2_def Let_def)
      have "good (f2\<lparr>gpos := 4096\<rparr>)" by (simp add: good_def f2_def)
      from getline_from [OF this] True rv i show ?thesis
        by (simp add: f2_def)
    qed
  qed
qed

lemma read_version_lt4:
  assumes "length blob < 4"
  shows "read_version stack (Some blob) = []"
proof -
  define f1 where
    "f1 = \<lparr>chars = blob, gpos = length blob, eofbit = True, failbit = True\<rparr>"
  have r: "istream_read (ifstream (Some blob)) MAGIC_SIZE = (blob, f1)"
    using assms
    by (simp add: istream_read_def ifstream_def sentry_def good_def MAGIC_SIZE_def Let_def
        f1_def)
  have s: "seekg_beg f1 0 = f1\<lparr>eofbit := False\<rparr>"
    by (simp add: seekg_beg_def sentry_def good_def f1_def)
  have i: "istream_ignore (f1\<lparr>eofbit := False\<rparr>) n = f1\<lparr>eofbit := False\<rparr>" for n
    by (simp add: istream_ignore_def sentry_def good_def f1_def)
  have g: "fst (getline (f1\<lparr>eofbit := False\<rparr>) [] d) = []" for d
    by (simp add: getline_def sentry_def good_def f1_def)
  show ?thesis
    by (simp add: read_version_def r s i g Let_def split_beta)
qed

text \<open>
  Claim C4, as stated, fails for a blob of fewer than four bytes. The read of four
  bytes then meets the end of the file and sets \<^verbatim>\<open>failbit\<close>; nothing clears it, so
  the seek to the start and the \<^verbatim>\<open>getline\<close> do nothing and the version is empty. The
  blob \<^verbatim>\<open>abc\<close> has no magic prefix and no NUL, yet it is not decoded from offset 0 to
  the end of the data.
\<close>

theorem read_version_short_blob:
  "read_version [0, 0, 0, 0] (Some ''abc'') = []
   \<and> snd (getPNORVersion (example_env (Some ''abc'') 0) []) = Inr []
   \<and> \<not> has_magic ''abc''
   \<and> takeWhile (\<lambda>c. c \<noteq> CHR 0x00) (drop 0 ''abc'') = ''abc''"
  by (simp add: read_version_lt4 has_magic_def getPNORVersion_def example_env_def
      pflash_def Let_def)

text \<open>
  Claim C4, amended. For every blob of at least four bytes: when it begins with the
  magic bytes \<^verbatim>\<open>17 08 20 11\<close> the version text is decoded from byte offset 4096, otherwise
  from offset 0; in both cases it is read up to the first NUL byte or the end of the
  data, whichever comes first. What the array \<^verbatim>\<open>magic\<close> held before the read does not
  matter.
\<close>

theorem read_version_offset:
  assumes "4 \<le> length blob"
  shows "read_version stack (Some blob) =
     takeWhile (\<lambda>c. c \<noteq> CHR 0x00) (drop (if has_magic blob then 4096 else 0) blob)"
  using assms by (rule read_version_ge4)

theorem read_version_offset_witness:
  "4 \<le> length signed_blob \<and> has_magic signed_blob
   \<and> read_version [0, 0, 0, 0] (Some signed_blob) = ''open-power-v2''"
proof -
  have l: "4 \<le> length signed_blob" by (simp add: signed_blob_def)
  have m: "has_magic signed_blob" by (simp add: signed_blob_def has_magic_def)
  from read_version_offset [OF l, of "[0, 0, 0, 0]"] l m show ?thesis
    by (simp add: signed_blob_def)
qed

section \<open>Failures of the version read\<close>

lemma getPNORVersion_tmpdir_fails:
  assumes "temp_directory_path w tr = None"
  shows "getPNORVersion w tr = (tr, Inl FilesystemError)"
  using assms by (simp add: getPNORVersion_def)

lemma getPNORVersion_mkdtemp_fails:
  assumes "temp_directory_path w tr = Some tmp"
    and "mkdtemp w tr (version_tmpl tmp) = None"
  shows "getPNORVersion w tr =
     (tr @ [Mkdtemp (version_tmpl tmp), Log ERR ''Failed to create temp dir'' []], Inr [])"
  using assms by (simp add: getPNORVersion_def version_tmpl_def Let_def)

lemma getPNORVersion_nonzero:
  assumes "temp_directory_path w tr = Some tmp"
    and "mkdtemp w tr (version_tmpl tmp) = Some tmpDir"
    and "popen w (tr @ [Mkdtemp (version_tmpl tmp)]) (version_cmd tmpDir) = Some (buffers, rc)"
    and "rc \<noteq> 0"
  shows "getPNORVersion w tr =
     (tr @ [Mkdtemp (version_tmpl tmp), Popen (version_cmd tmpDir), Pclose,
            Log ERR ''Failed to read VERSION'' [EntryInt ''RETURNCODE'' rc]], Inr [])"
  using assms
  by (simp add: getPNORVersion_def version_tmpl_def version_cmd_def pflash_def Let_def)

lemma getPNORVersion_popen_fails:
  assumes "temp_directory_path w tr = Some tmp"
    and "mkdtemp w tr (version_tmpl tmp) = Some tmpDir"
    and "popen w (tr @ [Mkdtemp (version_tmpl tmp)]) (version_cmd tmpDir) = None"
  shows "getPNORVersion w tr =
     (tr @ [Mkdtemp (version_tmpl tmp), Popen (version_cmd tmpDir)],
      Inl (RuntimeError ''popen() failed!''))"
  using assms
  by (simp add: getPNORVersion_def version_tmpl_def version_cmd_def pflash_def Let_def)

lemma getPNORVersion_Inl_iff:
  "(\<exists>e. snd (getPNORVersion w tr) = Inl e) \<longleftrightarrow>
   (temp_directory_path w tr = None
    \<or> (\<exists>tmp tmpDir. temp_directory_path w tr = Some tmp
          \<and> mkdtemp w tr (version_tmpl tmp) = Some tmpDir
          \<and> popen w (tr @ [Mkdtemp (version_tmpl tmp)]) (version_cmd tmpDir) = None))"
proof (cases "temp_directory_path w tr")
  case None
  then show ?thesis by (simp add: getPNORVersion_tmpdir_fails)
next
  case (Some tmp)
  show ?thesis
  proof (cases "mkdtemp w tr (version_tmpl tmp)")
    case None
    with Some show ?thesis by (simp add: getPNORVersion_mkdtemp_fails)
  next
    case dir: (Some tmpDir)
    show ?thesis
    proof (cases "popen w (tr @ [Mkdtemp (version_tmpl tmp)]) (version_cmd tmpDir)")
      case None
      with Some dir show ?thesis by (simp add: getPNORVersion_popen_fails)
    next
      case run: (Some a)
      with Some dir have "\<exists>v. snd (getPNORVersion w tr) = Inr v"
        by (cases a)
           (simp add: getPNORVersion_def version_tmpl_def version_cmd_def pflash_def Let_def
             split: option.splits)
      with Some dir run show ?thesis by auto
    qed
  qed
qed

text \<open>
  Claim C2, as stated, fails: \<^verbatim>\<open>pflash\<close> throws \<^verbatim>\<open>std::runtime_error\<close> when \<^verbatim>\<open>popen\<close>
  gives no pipe, and \<^verbatim>\<open>getPNORVersion\<close> does not catch it. Where the temporary
  directory can be created and pflash cannot be started, the caller gets the exception,
  not the empty string.
\<close>

theorem getPNORVersion_raises:
  "getPNORVersion popen_fail_env [] =
     ([Mkdtemp ''/tmp/versionXXXXXX'',
       Popen (''pflash -P VERSION -r /tmp/versionAbCdEf/version 2>&1 > /dev/null ''
              @ [CHR 0x0A])],
      Inl (RuntimeError ''popen() failed!''))"
  by code_simp

text \<open>
  Claim C2, amended. When \<^verbatim>\<open>fs::temp_directory_path()\<close> throws, \<^verbatim>\<open>getPNORVersion\<close>
  raises that exception before it has done anything. When the temporary directory cannot
  be created, it returns the empty string and has not run pflash: the failed \<^verbatim>\<open>mkdtemp\<close>
  and the log entry are its only events. When pflash ends with a status other than zero,
  it returns the empty string and has not opened the version file. When the directory was
  created and \<^verbatim>\<open>popen\<close> fails, it raises the exception of \<^verbatim>\<open>pflash\<close>. It raises to its
  caller in these two cases and in no other.
\<close>

theorem getPNORVersion_failures:
  "(temp_directory_path w0 tr0 = None \<longrightarrow>
      getPNORVersion w0 tr0 = (tr0, Inl FilesystemError))
   \<and> (temp_directory_path w tr = Some tmp \<and> mkdtemp w tr (version_tmpl tmp) = None \<longrightarrow>
      getPNORVersion w tr =
        (tr @ [Mkdtemp (version_tmpl tmp), Log ERR ''Failed to create temp dir'' []], Inr []))
   \<and> (temp_directory_path w' tr' = Some tmp'
        \<and> mkdtemp w' tr' (version_tmpl tmp') = Some tmpDir
        \<and> popen w' (tr' @ [Mkdtemp (version_tmpl tmp')]) (version_cmd tmpDir)
            = Some (buffers, rc)
        \<and> rc \<noteq> 0 \<longrightarrow>
      getPNORVersion w' tr' =
        (tr' @ [Mkdtemp (version_tmpl tmp'), Popen (version_cmd tmpDir), Pclose,
                Log ERR ''Failed to read VERSION'' [EntryInt ''RETURNCODE'' rc]], Inr []))
   \<and> (temp_directory_path w1 tr1 = Some tmp1
        \<and> mkdtemp w1 tr1 (version_tmpl tmp1) = Some tmpDir1
        \<and> popen w1 (tr1 @ [Mkdtemp (version_tmpl tmp1)]) (version_cmd tmpDir1) = None \<longrightarrow>
      getPNORVersion w1 tr1 =
        (tr1 @ [Mkdtemp (version_tmpl tmp1), Popen (version_cmd tmpDir1)],
         Inl (RuntimeError ''popen() failed!'')))
   \<and> ((\<exists>e. snd (getPNORVersion w'' tr'') = Inl e) \<longleftrightarrow>
        (temp_directory_path w'' tr'' = None
         \<or> (\<exists>tmp dir. temp_directory_path w'' tr'' = Some tmp
               \<and> mkdtemp w'' tr'' (version_tmpl tmp) = Some dir
               \<and> popen w'' (tr'' @ [Mkdtemp (version_tmpl tmp)]) (version_cmd dir) = None)))"
  using getPNORVersion_tmpdir_fails [of w0 tr0]
    getPNORVersion_mkdtemp_fails [of w tr tmp]
    getPNORVersion_nonzero [of w' tr' tmp' tmpDir buffers rc]
    getPNORVersion_popen_fails [of w1 tr1 tmp1 tmpDir1]
    getPNORVersion_Inl_iff [of w'' tr'']
  by blast

theorem getPNORVersion_failures_witness:
  "temp_directory_path tmpdir_fail_env [] = None
   \<and> getPNORVersion tmpdir_fail_env [] = ([], Inl FilesystemError)
   \<and> mkdtemp mkdtemp_fail_env [] (version_tmpl ''/tmp'') = None
   \<and> getPNORVersion mkdtemp_fail_env [] =
       ([Mkdtemp ''/tmp/versionXXXXXX'', Log ERR ''Failed to create temp dir'' []], Inr [])
   \<and> popen (example_env (Some ''open-power-v1'') 1) [Mkdtemp (version_tmpl ''/tmp'')]
        (version_cmd ''/tmp/versionAbCdEf'') = Some ([], 1)
   \<and> getPNORVersion (example_env (Some ''open-power-v1'') 1) [] =
       ([Mkdtemp ''/tmp/versionXXXXXX'', Popen (version_cmd ''/tmp/versionAbCdEf''), Pclose,
         Log ERR ''Failed to read VERSION'' [EntryInt ''RETURNCODE'' 1]], Inr [])
   \<and> popen popen_fail_env [Mkdtemp (version_tmpl ''/tmp'')]
        (version_cmd ''/tmp/versionAbCdEf'') = None
   \<and> getPNORVersion popen_fail_env [] =
       ([Mkdtemp ''/tmp/versionXXXXXX'', Popen (version_cmd ''/tmp/versionAbCdEf'')],
        Inl (RuntimeError ''popen() failed!''))
   \<and> (\<exists>e. snd (getPNORVersion popen_fail_env []) = Inl e)"
proof -
  let ?w = "example_env (Some ''open-power-v1'') 1"
  have z: "temp_directory_path tmpdir_fail_env [] = None"
    by (simp add: tmpdir_fail_env_def example_env_def)
  have p: "temp_directory_path mkdtemp_fail_env [] = Some ''/tmp''"
    "temp_directory_path ?w [] = Some ''/tmp''"
    "temp_directory_path popen_fail_env [] = Some ''/tmp''"
    by (simp_all add: mkdtemp_fail_env_def popen_fail_env_def example_env_def)
  have t: "version_tmpl ''/tmp'' = ''/tmp/versionXXXXXX''"
    by (simp add: version_tmpl_def path_append_def)
  have a: "mkdtemp mkdtemp_fail_env [] (version_tmpl ''/tmp'') = None"
    by (simp add: mkdtemp_fail_env_def example_env_def)
  have b: "mkdtemp ?w [] (version_tmpl ''/tmp'') = Some ''/tmp/versionAbCdEf''"
    by (simp add: example_env_def)
  have c: "popen ?w ([] @ [Mkdtemp (version_tmpl ''/tmp'')]) (version_cmd ''/tmp/versionAbCdEf'')
             = Some ([], 1)"
    by (simp add: example_env_def)
  have d: "mkdtemp popen_fail_env [] (version_tmpl ''/tmp'') = Some ''/tmp/versionAbCdEf''"
    "popen popen_fail_env ([] @ [Mkdtemp (version_tmpl ''/tmp'')])
       (version_cmd ''/tmp/versionAbCdEf'') = None"
    by (simp_all add: popen_fail_env_def example_env_def)
  from getPNORVersion_failures
         [of tmpdir_fail_env "[]" mkdtemp_fail_env "[]" "''/tmp''"
             ?w "[]" "''/tmp''" "''/tmp/versionAbCdEf''" "[]" 1
             popen_fail_env "[]" "''/tmp''" "''/tmp/versionAbCdEf''"
             popen_fail_env "[]"]
    z p a b c d
  show ?thesis
    by (simp add: t)
qed

section \<open>The temporary directory\<close>

text \<open>
  Claim C8 does not hold of the code. When pflash ends with a status other than zero,
  \<^verbatim>\<open>getPNORVersion\<close> returns at line 87, before the call of \<^verbatim>\<open>fs::remove_all\<close> at
  line 107 that the path of a successful read reaches: the directory that \<^verbatim>\<open>mkdtemp\<close>
  created is left behind.
\<close>

theorem getPNORVersion_leaves_temp_dir:
  "getPNORVersion (example_env (Some ''open-power-v1'') 1) [] =
     ([Mkdtemp ''/tmp/versionXXXXXX'',
       Popen (''pflash -P VERSION -r /tmp/versionAbCdEf/version 2>&1 > /dev/null ''
              @ [CHR 0x0A]),
       Pclose, Log ERR ''Failed to read VERSION'' [EntryInt ''RETURNCODE'' 1]],
      Inr [])
   \<and> RemoveAll ''/tmp/versionAbCdEf''
        \<notin> set (fst (getPNORVersion (example_env (Some ''open-power-v1'') 1) []))
   \<and> RemoveAll ''/tmp/versionAbCdEf''
        \<in> set (fst (getPNORVersion (example_env (Some ''open-power-v1'') 0) []))"
  by code_simp

section \<open>The reset bracket\<close>

lemma pnorClear_cases:
  "pnorClear w tr part ecc =
     (case popen w tr (clear_cmd (part, ecc)) of
        None \<Rightarrow> (tr @ [Popen (clear_cmd (part, ecc))], Inl (RuntimeError ''popen() failed!''))
      | Some (buffers, rc) \<Rightarrow> (tr @ clear_events (part, ecc) rc, Inr ()))"
  by (simp add: pnorClear_def pflash_def clear_events_def clear_cmd_def Let_def
      split: option.splits)

lemma pnorClear_Inr:
  assumes "pnorClear w tr part ecc = (tr1, Inr u)"
  shows "\<exists>rc. tr1 = tr @ clear_events (part, ecc) rc"
proof (cases "popen w tr (clear_cmd (part, ecc))")
  case None
  with assms show ?thesis by (simp add: pnorClear_cases)
next
  case (Some a)
  obtain buffers rc where "a = (buffers, rc)" by (cases a)
  with Some assms have "tr1 = tr @ clear_events (part, ecc) rc"
    by (simp add: pnorClear_cases)
  then show ?thesis ..
qed

lemma pnorClear_Inl:
  assumes "pnorClear w tr part ecc = (tr1, Inl e)"
  shows "tr1 = tr @ [Popen (clear_cmd (part, ecc))]"
proof (cases "popen w tr (clear_cmd (part, ecc))")
  case None
  with assms show ?thesis by (simp add: pnorClear_cases)
next
  case (Some a)
  obtain buffers rc where "a = (buffers, rc)" by (cases a)
  with Some assms show ?thesis
    by (simp add: pnorClear_cases)
qed

lemma pnorClear_Inr_popen:
  assumes "pnorClear w tr part ecc = (tr1, Inr u)"
  shows "\<exists>buffers rc. popen w tr (clear_cmd (part, ecc)) = Some (buffers, rc)
           \<and> tr1 = tr @ clear_events (part, ecc) rc"
proof (cases "popen w tr (clear_cmd (part, ecc))")
  case None
  with assms show ?thesis by (simp add: pnorClear_cases)
next
  case (Some a)
  obtain buffers rc where a: "a = (buffers, rc)" by (cases a)
  with Some assms have "tr1 = tr @ clear_events (part, ecc) rc"
    by (simp add: pnorClear_cases)
  with Some a show ?thesis by simp
qed

lemma pnorClear_Inl_popen:
  assumes "pnorClear w tr part ecc = (tr1, Inl e)"
  shows "popen w tr (clear_cmd (part, ecc)) = None"
proof (cases "popen w tr (clear_cmd (part, ecc))")
  case None
  then show ?thesis .
next
  case (Some a)
  obtain buffers rc where "a = (buffers, rc)" by (cases a)
  with Some assms show ?thesis
    by (simp add: pnorClear_cases)
qed

lemma pnorClear_popen_ok:
  assumes "popen_ok w"
  shows "\<exists>tr1. pnorClear w tr part ecc = (tr1, Inr ())"
proof -
  obtain buffers rc where "popen w tr (clear_cmd (part, ecc)) = Some (buffers, rc)"
    using assms unfolding popen_ok_def by (metis option.exhaust surj_pair)
  then show ?thesis
    by (simp add: pnorClear_cases)
qed

lemma resume_notin_clear: "HiomapdResume \<notin> set (clear_events p rc)"
  by (simp add: clear_events_def)

lemma suspend_notin_clear: "HiomapdSuspend \<notin> set (clear_events p rc)"
  by (simp add: clear_events_def)

lemma suspend_notin_clears: "HiomapdSuspend \<notin> set (clears_events ps rcs)"
  by (auto simp: clears_events_def clear_events_def in_set_zip)

lemma resume_notin_clears: "HiomapdResume \<notin> set (clears_events ps rcs)"
  by (auto simp: clears_events_def clear_events_def in_set_zip)

lemma popen_clear1: "filter is_Popen (clear_events p rc) = [Popen (clear_cmd p)]"
  by (simp add: clear_events_def)

lemma popen_clears:
  "length rcs = length ps \<Longrightarrow>
   filter is_Popen (clears_events ps rcs) = map (\<lambda>p. Popen (clear_cmd p)) ps"
proof (induction ps arbitrary: rcs)
  case Nil
  then show ?case by (simp add: clears_events_def)
next
  case (Cons p ps)
  then obtain rc rcs' where r: "rcs = rc # rcs'" and l: "length rcs' = length ps"
    by (cases rcs) auto
  have "clears_events (p # ps) rcs = clear_events p rc @ clears_events ps rcs'"
    by (simp add: clears_events_def r)
  with Cons.IH [OF l] show ?case
    by (simp add: popen_clear1)
qed

lemma reset_loop_Inr:
  "reset_loop w tr ps = (tr', Inr u) \<Longrightarrow>
     \<exists>rcs. rcs = clear_statuses w tr ps \<and> length rcs = length ps
        \<and> tr' = tr @ clears_events ps rcs"
proof (induction ps arbitrary: tr)
  case Nil
  then show ?case by (simp add: clears_events_def)
next
  case (Cons p ps)
  obtain tr1 res where c: "pnorClear w tr (fst p) (snd p) = (tr1, res)"
    by (cases "pnorClear w tr (fst p) (snd p)")
  show ?case
  proof (cases res)
    case (Inl e)
    with c Cons.prems show ?thesis by simp
  next
    case (Inr u1)
    with c Cons.prems have l: "reset_loop w tr1 ps = (tr', Inr u)" by simp
    from c Inr have "pnorClear w tr (fst p) (snd p) = (tr1, Inr u1)" by simp
    from pnorClear_Inr_popen [OF this] obtain buffers rc where
      po: "popen w tr (clear_cmd p) = Some (buffers, rc)"
      and t1: "tr1 = tr @ clear_events p rc" by auto
    from Cons.IH [OF l] obtain rcs where s: "rcs = clear_statuses w tr1 ps"
      and "length rcs = length ps"
      and "tr' = tr1 @ clears_events ps rcs" by auto
    with t1 have "length (rc # rcs) = length (p # ps)
        \<and> tr' = tr @ clears_events (p # ps) (rc # rcs)"
      by (simp add: clears_events_def)
    moreover from po t1 s have "rc # rcs = clear_statuses w tr (p # ps)" by simp
    ultimately show ?thesis by blast
  qed
qed

lemma reset_loop_Inl:
  "reset_loop w tr ps = (tr', Inl e) \<Longrightarrow>
     \<exists>evs. tr' = tr @ evs \<and> HiomapdResume \<notin> set evs"
proof (induction ps arbitrary: tr)
  case Nil
  then show ?case by simp
next
  case (Cons p ps)
  obtain tr1 res where c: "pnorClear w tr (fst p) (snd p) = (tr1, res)"
    by (cases "pnorClear w tr (fst p) (snd p)")
  show ?case
  proof (cases res)
    case (Inl e1)
    with c have "pnorClear w tr (fst p) (snd p) = (tr1, Inl e1)" by simp
    from pnorClear_Inl [OF this] have "tr1 = tr @ [Popen (clear_cmd p)]" by simp
    moreover from c Inl Cons.prems have "tr' = tr1" by simp
    ultimately have "tr' = tr @ [Popen (clear_cmd p)]
        \<and> HiomapdResume \<notin> set [Popen (clear_cmd p)]" by simp
    then show ?thesis by blast
  next
    case (Inr u1)
    with c Cons.prems have l: "reset_loop w tr1 ps = (tr', Inl e)" by simp
    from c Inr have "pnorClear w tr (fst p) (snd p) = (tr1, Inr u1)" by simp
    from pnorClear_Inr [OF this] obtain rc where t1: "tr1 = tr @ clear_events p rc" by auto
    from Cons.IH [OF l] obtain evs where "tr' = tr1 @ evs" and "HiomapdResume \<notin> set evs"
      by auto
    with t1 have "tr' = tr @ (clear_events p rc @ evs)
        \<and> HiomapdResume \<notin> set (clear_events p rc @ evs)"
      by (simp add: resume_notin_clear)
    then show ?thesis by blast
  qed
qed

lemma reset_loop_popen_ok:
  assumes "popen_ok w"
  shows "snd (reset_loop w tr ps) = Inr ()"
proof (induction ps arbitrary: tr)
  case Nil
  show ?case by simp
next
  case (Cons p ps)
  from pnorClear_popen_ok [OF assms] obtain tr1 where
    "pnorClear w tr (fst p) (snd p) = (tr1, Inr ())" by blast
  with Cons.IH [of tr1] show ?case by simp
qed

lemma getPartsToClear_pflash_cases:
  "getPartsToClear_pflash w tr =
     (case popen w tr discovery_cmd of
        None \<Rightarrow> (tr @ [Popen discovery_cmd], Inl (RuntimeError ''popen() failed!''))
      | Some (buffers, rc) \<Rightarrow>
          (tr @ [Popen discovery_cmd, Pclose], Inr (getPartsToClear (fgets_loop buffers []))))"
  by (simp add: getPartsToClear_pflash_def pflash_def discovery_cmd_def Let_def
      split: option.splits)

lemma reset_returns:
  assumes "snd (ItemUpdaterStatic_reset w tr) = Inr ()"
  shows "\<exists>buffers rc rcs.
      popen w tr discovery_cmd = Some (buffers, rc)
    \<and> rcs = clear_statuses w (tr @ [Popen discovery_cmd, Pclose, HiomapdSuspend])
              (getPartsToClear (fgets_loop buffers []))
    \<and> length rcs = length (getPartsToClear (fgets_loop buffers []))
    \<and> fst (ItemUpdaterStatic_reset w tr) =
        tr @ [Popen discovery_cmd, Pclose] @ [HiomapdSuspend]
           @ clears_events (getPartsToClear (fgets_loop buffers [])) rcs @ [HiomapdResume]"
proof (cases "popen w tr discovery_cmd")
  case None
  with assms show ?thesis
    by (simp add: ItemUpdaterStatic_reset_def getPartsToClear_pflash_cases hiomapdSuspend_def hiomapdResume_def)
next
  case (Some a)
  obtain buffers rc where a: "a = (buffers, rc)" by (cases a)
  let ?ps = "getPartsToClear (fgets_loop buffers [])"
  let ?tr1 = "tr @ [Popen discovery_cmd, Pclose]"
  have g: "getPartsToClear_pflash w tr = (?tr1, Inr ?ps)"
    using Some a by (simp add: getPartsToClear_pflash_cases)
  obtain tr2 res where l: "reset_loop w (?tr1 @ [HiomapdSuspend]) ?ps = (tr2, res)"
    by (cases "reset_loop w (?tr1 @ [HiomapdSuspend]) ?ps")
  show ?thesis
  proof (cases res)
    case (Inl e)
    with assms g l show ?thesis
      by (simp add: ItemUpdaterStatic_reset_def hiomapdSuspend_def hiomapdResume_def)
  next
    case (Inr u)
    with g l have r: "ItemUpdaterStatic_reset w tr = (tr2 @ [HiomapdResume], Inr ())"
      by (simp add: ItemUpdaterStatic_reset_def hiomapdSuspend_def hiomapdResume_def)
    from l Inr have "reset_loop w (?tr1 @ [HiomapdSuspend]) ?ps = (tr2, Inr u)" by simp
    from reset_loop_Inr [OF this] obtain rcs where
      "rcs = clear_statuses w (?tr1 @ [HiomapdSuspend]) ?ps"
      and "length rcs = length ?ps"
      and "tr2 = (?tr1 @ [HiomapdSuspend]) @ clears_events ?ps rcs" by blast
    with Some a r show ?thesis
      by (intro exI [of _ buffers] exI [of _ rc] exI [of _ rcs]) simp
  qed
qed

lemma reset_raises:
  assumes "snd (ItemUpdaterStatic_reset w tr) \<noteq> Inr ()"
  shows "\<exists>evs. fst (ItemUpdaterStatic_reset w tr) = tr @ evs \<and> HiomapdResume \<notin> set evs"
proof (cases "popen w tr discovery_cmd")
  case None
  then have "fst (ItemUpdaterStatic_reset w tr) = tr @ [Popen discovery_cmd]
      \<and> HiomapdResume \<notin> set [Popen discovery_cmd]"
    by (simp add: ItemUpdaterStatic_reset_def getPartsToClear_pflash_cases hiomapdSuspend_def hiomapdResume_def)
  then show ?thesis by blast
next
  case (Some a)
  obtain buffers rc where a: "a = (buffers, rc)" by (cases a)
  let ?ps = "getPartsToClear (fgets_loop buffers [])"
  let ?tr1 = "tr @ [Popen discovery_cmd, Pclose]"
  have g: "getPartsToClear_pflash w tr = (?tr1, Inr ?ps)"
    using Some a by (simp add: getPartsToClear_pflash_cases)
  obtain tr2 res where l: "reset_loop w (?tr1 @ [HiomapdSuspend]) ?ps = (tr2, res)"
    by (cases "reset_loop w (?tr1 @ [HiomapdSuspend]) ?ps")
  show ?thesis
  proof (cases res)
    case (Inr u)
    with assms g l show ?thesis
      by (simp add: ItemUpdaterStatic_reset_def hiomapdSuspend_def hiomapdResume_def)
  next
    case (Inl e)
    with g l have r: "fst (ItemUpdaterStatic_reset w tr) = tr2"
      by (simp add: ItemUpdaterStatic_reset_def hiomapdSuspend_def hiomapdResume_def)
    from l Inl have "reset_loop w (?tr1 @ [HiomapdSuspend]) ?ps = (tr2, Inl e)" by simp
    from reset_loop_Inl [OF this] obtain evs where
      "tr2 = (?tr1 @ [HiomapdSuspend]) @ evs" and "HiomapdResume \<notin> set evs" by blast
    with r have "fst (ItemUpdaterStatic_reset w tr)
          = tr @ ([Popen discovery_cmd, Pclose, HiomapdSuspend] @ evs)
        \<and> HiomapdResume \<notin> set ([Popen discovery_cmd, Pclose, HiomapdSuspend] @ evs)"
      by simp
    then show ?thesis by blast
  qed
qed

lemma reset_popen_ok:
  assumes "popen_ok w"
  shows "snd (ItemUpdaterStatic_reset w tr) = Inr ()"
proof -
  obtain buffers rc where p: "popen w tr discovery_cmd = Some (buffers, rc)"
    using assms unfolding popen_ok_def by (metis option.exhaust surj_pair)
  let ?ps = "getPartsToClear (fgets_loop buffers [])"
  let ?tr1 = "tr @ [Popen discovery_cmd, Pclose]"
  have g: "getPartsToClear_pflash w tr = (?tr1, Inr ?ps)"
    using p by (simp add: getPartsToClear_pflash_cases)
  obtain tr2 where "reset_loop w (?tr1 @ [HiomapdSuspend]) ?ps = (tr2, Inr ())"
    using reset_loop_popen_ok [OF assms, of "?tr1 @ [HiomapdSuspend]" ?ps]
    by (cases "reset_loop w (?tr1 @ [HiomapdSuspend]) ?ps") simp
  with g show ?thesis
    by (simp add: ItemUpdaterStatic_reset_def hiomapdSuspend_def hiomapdResume_def)
qed

text \<open>
  Claim C1, as stated, fails: \<^verbatim>\<open>pflash\<close> throws when \<^verbatim>\<open>popen\<close> gives no pipe, and
  neither \<^verbatim>\<open>pnorClear\<close> nor \<^verbatim>\<open>reset\<close> catches it. Where the listing has a candidate
  and its clear cannot be started, the exception leaves \<^verbatim>\<open>reset\<close> after the suspend and
  the resume is never called.
\<close>

theorem ItemUpdaterStatic_reset_popen_fails:
  "ItemUpdaterStatic_reset clear_fail_env [] =
     ([Popen discovery_cmd, Pclose, HiomapdSuspend,
       Popen (''pflash -P MVPD -c -f >/dev/null '' @ [CHR 0x0A])],
      Inl (RuntimeError ''popen() failed!''))
   \<and> HiomapdResume \<notin> set (fst (ItemUpdaterStatic_reset clear_fail_env []))"
  by code_simp

lemma pnorClear_Inl_exn:
  assumes "pnorClear w tr part ecc = (tr1, Inl e)"
  shows "e = RuntimeError ''popen() failed!''"
proof (cases "popen w tr (clear_cmd (part, ecc))")
  case None
  with assms show ?thesis by (simp add: pnorClear_cases)
next
  case (Some a)
  obtain buffers rc where "a = (buffers, rc)" by (cases a)
  with Some assms show ?thesis
    by (simp add: pnorClear_cases)
qed

lemma reset_loop_Inl_exact:
  "reset_loop w tr ps = (tr', Inl e) \<Longrightarrow>
     \<exists>k rcs. rcs = clear_statuses w tr ps \<and> k < length ps \<and> length rcs = k
        \<and> tr' = tr @ clears_events (take k ps) rcs @ [Popen (clear_cmd (ps ! k))]
        \<and> e = RuntimeError ''popen() failed!''"
proof (induction ps arbitrary: tr)
  case Nil
  then show ?case by simp
next
  case (Cons p ps)
  obtain tr1 res where c: "pnorClear w tr (fst p) (snd p) = (tr1, res)"
    by (cases "pnorClear w tr (fst p) (snd p)")
  show ?case
  proof (cases res)
    case (Inl e1)
    with c have c': "pnorClear w tr (fst p) (snd p) = (tr1, Inl e1)" by simp
    from pnorClear_Inl [OF c'] have t: "tr1 = tr @ [Popen (clear_cmd p)]" by simp
    from pnorClear_Inl_exn [OF c'] have x: "e1 = RuntimeError ''popen() failed!''" .
    from pnorClear_Inl_popen [OF c'] have "popen w tr (clear_cmd p) = None" by simp
    then have st: "[] = clear_statuses w tr (p # ps)" by simp
    from c Inl Cons.prems have "tr' = tr1" "e = e1" by simp_all
    with t x have "0 < length (p # ps) \<and> length ([] :: int list) = 0
        \<and> tr' = tr @ clears_events (take 0 (p # ps)) [] @ [Popen (clear_cmd ((p # ps) ! 0))]
        \<and> e = RuntimeError ''popen() failed!''"
      by (simp add: clears_events_def)
    with st show ?thesis by blast
  next
    case (Inr u1)
    with c Cons.prems have l: "reset_loop w tr1 ps = (tr', Inl e)" by simp
    from c Inr have "pnorClear w tr (fst p) (snd p) = (tr1, Inr u1)" by simp
    from pnorClear_Inr_popen [OF this] obtain buffers rc where
      po: "popen w tr (clear_cmd p) = Some (buffers, rc)"
      and t1: "tr1 = tr @ clear_events p rc" by auto
    from Cons.IH [OF l] obtain k rcs where s: "rcs = clear_statuses w tr1 ps"
      and k: "k < length ps" and r: "length rcs = k"
      and t: "tr' = tr1 @ clears_events (take k ps) rcs @ [Popen (clear_cmd (ps ! k))]"
      and x: "e = RuntimeError ''popen() failed!''"
      by blast
    have "clears_events (take (Suc k) (p # ps)) (rc # rcs)
            = clear_events p rc @ clears_events (take k ps) rcs"
      by (simp add: clears_events_def)
    with k r t t1 x have "Suc k < length (p # ps) \<and> length (rc # rcs) = Suc k
        \<and> tr' = tr @ clears_events (take (Suc k) (p # ps)) (rc # rcs)
               @ [Popen (clear_cmd ((p # ps) ! Suc k))]
        \<and> e = RuntimeError ''popen() failed!''"
      by simp
    moreover from po t1 s have "rc # rcs = clear_statuses w tr (p # ps)" by simp
    ultimately show ?thesis by blast
  qed
qed

lemma reset_listing_fails:
  assumes "popen w tr discovery_cmd = None"
  shows "ItemUpdaterStatic_reset w tr =
     (tr @ [Popen discovery_cmd], Inl (RuntimeError ''popen() failed!''))"
  using assms
  by (simp add: ItemUpdaterStatic_reset_def getPartsToClear_pflash_cases)

lemma reset_clear_fails:
  assumes "popen w tr discovery_cmd = Some (buffers, rc)"
    and "snd (ItemUpdaterStatic_reset w tr) \<noteq> Inr ()"
  shows "\<exists>k rcs.
       rcs = clear_statuses w (tr @ [Popen discovery_cmd, Pclose, HiomapdSuspend])
               (getPartsToClear (fgets_loop buffers []))
     \<and> k < length (getPartsToClear (fgets_loop buffers [])) \<and> length rcs = k
     \<and> ItemUpdaterStatic_reset w tr =
         (tr @ [Popen discovery_cmd, Pclose] @ [HiomapdSuspend]
             @ clears_events (take k (getPartsToClear (fgets_loop buffers []))) rcs
             @ [Popen (clear_cmd (getPartsToClear (fgets_loop buffers []) ! k))],
          Inl (RuntimeError ''popen() failed!''))"
proof -
  let ?ps = "getPartsToClear (fgets_loop buffers [])"
  let ?tr1 = "tr @ [Popen discovery_cmd, Pclose]"
  have g: "getPartsToClear_pflash w tr = (?tr1, Inr ?ps)"
    using assms(1) by (simp add: getPartsToClear_pflash_cases)
  obtain tr2 res where l: "reset_loop w (?tr1 @ [HiomapdSuspend]) ?ps = (tr2, res)"
    by (cases "reset_loop w (?tr1 @ [HiomapdSuspend]) ?ps")
  show ?thesis
  proof (cases res)
    case (Inr u)
    with assms(2) g l show ?thesis
      by (simp add: ItemUpdaterStatic_reset_def hiomapdSuspend_def hiomapdResume_def)
  next
    case (Inl e)
    with g l have r: "ItemUpdaterStatic_reset w tr = (tr2, Inl e)"
      by (simp add: ItemUpdaterStatic_reset_def hiomapdSuspend_def hiomapdResume_def)
    from l Inl have "reset_loop w (?tr1 @ [HiomapdSuspend]) ?ps = (tr2, Inl e)" by simp
    from reset_loop_Inl_exact [OF this] obtain k rcs where
      "rcs = clear_statuses w (?tr1 @ [HiomapdSuspend]) ?ps"
      and "k < length ?ps" "length rcs = k"
      and "tr2 = (?tr1 @ [HiomapdSuspend]) @ clears_events (take k ?ps) rcs
                  @ [Popen (clear_cmd (?ps ! k))]"
      and "e = RuntimeError ''popen() failed!''"
      by blast
    with r have "rcs = clear_statuses w (tr @ [Popen discovery_cmd, Pclose, HiomapdSuspend]) ?ps
     \<and> k < length ?ps \<and> length rcs = k
     \<and> ItemUpdaterStatic_reset w tr =
         (tr @ [Popen discovery_cmd, Pclose] @ [HiomapdSuspend]
             @ clears_events (take k ?ps) rcs @ [Popen (clear_cmd (?ps ! k))],
          Inl (RuntimeError ''popen() failed!''))"
      by simp
    then show ?thesis by blast
  qed
qed

text \<open>
  Claim C1, amended. \<^verbatim>\<open>ItemUpdaterStatic::reset\<close> returns whenever every pflash run can
  be started. Whenever it returns, its events are: the listing of the partitions, one
  suspend, then for each candidate in listing order one clear with the log entry of its
  exit status, whatever the exit statuses of the clears are and also when there is no
  candidate, then one resume. No suspend or resume lies between the clears. When it does
  not return, a pflash
  run could not be started and resume is not called: if that run is the listing, the
  attempt to start it is the only event, so suspend is not called either; if it is the
  clear of a candidate, the events are the listing, one suspend, the clears of the
  candidates before it and the attempt to start its clear.
\<close>

theorem ItemUpdaterStatic_reset_bracket:
  "(popen_ok w \<longrightarrow> snd (ItemUpdaterStatic_reset w tr) = Inr ())
   \<and> (snd (ItemUpdaterStatic_reset w' tr') = Inr () \<longrightarrow>
        (\<exists>buffers rc rcs.
            popen w' tr' discovery_cmd = Some (buffers, rc)
          \<and> rcs = clear_statuses w' (tr' @ [Popen discovery_cmd, Pclose, HiomapdSuspend])
                    (getPartsToClear (fgets_loop buffers []))
          \<and> length rcs = length (getPartsToClear (fgets_loop buffers []))
          \<and> fst (ItemUpdaterStatic_reset w' tr') =
               tr' @ [Popen discovery_cmd, Pclose] @ [HiomapdSuspend]
                 @ clears_events (getPartsToClear (fgets_loop buffers [])) rcs
                 @ [HiomapdResume]
          \<and> HiomapdSuspend \<notin> set (clears_events (getPartsToClear (fgets_loop buffers [])) rcs)
          \<and> HiomapdResume \<notin> set (clears_events (getPartsToClear (fgets_loop buffers [])) rcs)
          \<and> filter is_Popen (clears_events (getPartsToClear (fgets_loop buffers [])) rcs)
               = map (\<lambda>p. Popen (clear_cmd p)) (getPartsToClear (fgets_loop buffers []))))
   \<and> (snd (ItemUpdaterStatic_reset w'' tr'') \<noteq> Inr () \<longrightarrow>
        (\<exists>evs. fst (ItemUpdaterStatic_reset w'' tr'') = tr'' @ evs
           \<and> HiomapdResume \<notin> set evs))
   \<and> (popen w1 tr1 discovery_cmd = None \<longrightarrow>
        ItemUpdaterStatic_reset w1 tr1 =
          (tr1 @ [Popen discovery_cmd], Inl (RuntimeError ''popen() failed!'')))
   \<and> (popen w2 tr2 discovery_cmd = Some (buffers2, rc2)
        \<and> snd (ItemUpdaterStatic_reset w2 tr2) \<noteq> Inr () \<longrightarrow>
        (\<exists>k rcs.
            rcs = clear_statuses w2 (tr2 @ [Popen discovery_cmd, Pclose, HiomapdSuspend])
                    (getPartsToClear (fgets_loop buffers2 []))
          \<and> k < length (getPartsToClear (fgets_loop buffers2 [])) \<and> length rcs = k
          \<and> ItemUpdaterStatic_reset w2 tr2 =
              (tr2 @ [Popen discovery_cmd, Pclose] @ [HiomapdSuspend]
                 @ clears_events (take k (getPartsToClear (fgets_loop buffers2 []))) rcs
                 @ [Popen (clear_cmd (getPartsToClear (fgets_loop buffers2 []) ! k))],
               Inl (RuntimeError ''popen() failed!''))))"
proof (intro conjI impI)
  assume "popen_ok w"
  then show "snd (ItemUpdaterStatic_reset w tr) = Inr ()"
    by (rule reset_popen_ok)
next
  assume "snd (ItemUpdaterStatic_reset w' tr') = Inr ()"
  from reset_returns [OF this] obtain buffers rc rcs where
    p: "popen w' tr' discovery_cmd = Some (buffers, rc)"
    and st: "rcs = clear_statuses w' (tr' @ [Popen discovery_cmd, Pclose, HiomapdSuspend])
                    (getPartsToClear (fgets_loop buffers []))"
    and l: "length rcs = length (getPartsToClear (fgets_loop buffers []))"
    and t: "fst (ItemUpdaterStatic_reset w' tr') =
        tr' @ [Popen discovery_cmd, Pclose] @ [HiomapdSuspend]
           @ clears_events (getPartsToClear (fgets_loop buffers [])) rcs @ [HiomapdResume]"
    by blast
  from p st l t suspend_notin_clears resume_notin_clears popen_clears [OF l]
  show "\<exists>buffers rc rcs.
            popen w' tr' discovery_cmd = Some (buffers, rc)
          \<and> rcs = clear_statuses w' (tr' @ [Popen discovery_cmd, Pclose, HiomapdSuspend])
                    (getPartsToClear (fgets_loop buffers []))
          \<and> length rcs = length (getPartsToClear (fgets_loop buffers []))
          \<and> fst (ItemUpdaterStatic_reset w' tr') =
               tr' @ [Popen discovery_cmd, Pclose] @ [HiomapdSuspend]
                 @ clears_events (getPartsToClear (fgets_loop buffers [])) rcs
                 @ [HiomapdResume]
          \<and> HiomapdSuspend \<notin> set (clears_events (getPartsToClear (fgets_loop buffers [])) rcs)
          \<and> HiomapdResume \<notin> set (clears_events (getPartsToClear (fgets_loop buffers [])) rcs)
          \<and> filter is_Popen (clears_events (getPartsToClear (fgets_loop buffers [])) rcs)
               = map (\<lambda>p. Popen (clear_cmd p)) (getPartsToClear (fgets_loop buffers []))"
    by blast
next
  assume "snd (ItemUpdaterStatic_reset w'' tr'') \<noteq> Inr ()"
  then show "\<exists>evs. fst (ItemUpdaterStatic_reset w'' tr'') = tr'' @ evs
           \<and> HiomapdResume \<notin> set evs"
    by (rule reset_raises)
next
  assume "popen w1 tr1 discovery_cmd = None"
  then show "ItemUpdaterStatic_reset w1 tr1 =
          (tr1 @ [Popen discovery_cmd], Inl (RuntimeError ''popen() failed!''))"
    by (rule reset_listing_fails)
next
  assume "popen w2 tr2 discovery_cmd = Some (buffers2, rc2)
        \<and> snd (ItemUpdaterStatic_reset w2 tr2) \<noteq> Inr ()"
  then have a: "popen w2 tr2 discovery_cmd = Some (buffers2, rc2)"
    and b: "snd (ItemUpdaterStatic_reset w2 tr2) \<noteq> Inr ()" by simp_all
  show "\<exists>k rcs.
            rcs = clear_statuses w2 (tr2 @ [Popen discovery_cmd, Pclose, HiomapdSuspend])
                    (getPartsToClear (fgets_loop buffers2 []))
          \<and> k < length (getPartsToClear (fgets_loop buffers2 [])) \<and> length rcs = k
          \<and> ItemUpdaterStatic_reset w2 tr2 =
              (tr2 @ [Popen discovery_cmd, Pclose] @ [HiomapdSuspend]
                 @ clears_events (take k (getPartsToClear (fgets_loop buffers2 []))) rcs
                 @ [Popen (clear_cmd (getPartsToClear (fgets_loop buffers2 []) ! k))],
               Inl (RuntimeError ''popen() failed!''))"
    by (rule reset_clear_fails [OF a b])
qed

theorem ItemUpdaterStatic_reset_bracket_witness:
  "popen_ok (listing_env 1)
   \<and> snd (ItemUpdaterStatic_reset (listing_env 1) []) = Inr ()
   \<and> fst (ItemUpdaterStatic_reset (listing_env 1) []) =
       [Popen discovery_cmd, Pclose, HiomapdSuspend,
        Popen (''pflash -P MVPD -c -f >/dev/null '' @ [CHR 0x0A]), Pclose,
        Log ERR ''Failed to clear partition''
          [EntryStr ''PART'' ''MVPD'', EntryInt ''RETURNCODE'' 1],
        HiomapdResume]
   \<and> snd (ItemUpdaterStatic_reset clear_fail_env []) \<noteq> Inr ()
   \<and> (\<exists>evs. fst (ItemUpdaterStatic_reset clear_fail_env []) = [] @ evs
         \<and> HiomapdResume \<notin> set evs)
   \<and> popen popen_fail_env [] discovery_cmd = None
   \<and> ItemUpdaterStatic_reset popen_fail_env [] =
       ([] @ [Popen discovery_cmd], Inl (RuntimeError ''popen() failed!''))
   \<and> popen clear_fail_env [] discovery_cmd = Some ([listing], 0)
   \<and> (\<exists>k rcs.
            rcs = clear_statuses clear_fail_env ([] @ [Popen discovery_cmd, Pclose, HiomapdSuspend])
                    (getPartsToClear (fgets_loop [listing] []))
          \<and> k < length (getPartsToClear (fgets_loop [listing] [])) \<and> length rcs = k
          \<and> ItemUpdaterStatic_reset clear_fail_env [] =
              ([] @ [Popen discovery_cmd, Pclose] @ [HiomapdSuspend]
                 @ clears_events (take k (getPartsToClear (fgets_loop [listing] []))) rcs
                 @ [Popen (clear_cmd (getPartsToClear (fgets_loop [listing] []) ! k))],
               Inl (RuntimeError ''popen() failed!'')))"
proof -
  have ok: "popen_ok (listing_env 1)"
    by (simp add: popen_ok_def listing_env_def example_env_def)
  have ev: "fst (ItemUpdaterStatic_reset (listing_env 1) []) =
       [Popen discovery_cmd, Pclose, HiomapdSuspend,
        Popen (''pflash -P MVPD -c -f >/dev/null '' @ [CHR 0x0A]), Pclose,
        Log ERR ''Failed to clear partition''
          [EntryStr ''PART'' ''MVPD'', EntryInt ''RETURNCODE'' 1],
        HiomapdResume]"
    by code_simp
  have ne: "snd (ItemUpdaterStatic_reset clear_fail_env []) \<noteq> Inr ()"
    by code_simp
  have pf: "popen popen_fail_env [] discovery_cmd = None"
    by (simp add: popen_fail_env_def example_env_def)
  have cf: "popen clear_fail_env [] discovery_cmd = Some ([listing], 0)"
    by (simp add: clear_fail_env_def example_env_def)
  from ItemUpdaterStatic_reset_bracket
         [of "listing_env 1" "[]" "listing_env 1" "[]" clear_fail_env "[]"
             popen_fail_env "[]" clear_fail_env "[]" "[listing]" 0] ok ev ne pf cf
  show ?thesis by blast
qed

section \<open>The guard reset\<close>

lemma guard_cmd:
  "clear_cmd (''GUARD'', True) = ''pflash -P GUARD -c -f >/dev/null '' @ [CHR 0x0A]"
  by (simp add: clear_cmd_def concat_string_def)

lemma guard_not_discovery: "clear_cmd (''GUARD'', True) \<noteq> discovery_cmd"
  by (simp add: clear_cmd_def concat_string_def discovery_cmd_def)

lemma GardResetStatic_reset_cases:
  "GardResetStatic_reset w tr =
     (case popen w (tr @ [HiomapdSuspend]) (clear_cmd (''GUARD'', True)) of
        None \<Rightarrow> (tr @ [HiomapdSuspend, Popen (clear_cmd (''GUARD'', True))],
                  Inl (RuntimeError ''popen() failed!''))
      | Some (buffers, rc) \<Rightarrow>
          (tr @ [HiomapdSuspend] @ clear_events (''GUARD'', True) rc @ [HiomapdResume],
           Inr ()))"
  by (simp add: GardResetStatic_reset_def pnorClear_default_def pnorClear_cases
      hiomapdSuspend_def hiomapdResume_def
      split: option.splits)

lemma GardResetStatic_reset_no_discovery:
  "Popen discovery_cmd \<notin> set (drop (length tr) (fst (GardResetStatic_reset w tr)))"
  using guard_not_discovery
  by (auto simp: GardResetStatic_reset_cases clear_events_def split: option.splits)

text \<open>
  Claim C10, as stated, fails: the guard reset does not always reach the resume. Where
  pflash cannot be started, \<^verbatim>\<open>pflash\<close> throws after the suspend, nothing catches the
  exception, the partition is not cleared and resume is not called.
\<close>

theorem GardResetStatic_reset_popen_fails:
  "GardResetStatic_reset popen_fail_env [] =
     ([HiomapdSuspend, Popen (''pflash -P GUARD -c -f >/dev/null '' @ [CHR 0x0A])],
      Inl (RuntimeError ''popen() failed!''))
   \<and> HiomapdResume \<notin> set (fst (GardResetStatic_reset popen_fail_env []))"
  by code_simp

text \<open>
  Claim C10, amended. Whenever pflash can be started, \<^verbatim>\<open>GardResetStatic::reset\<close> has
  exactly these events: one suspend, one clear of the partition \<^verbatim>\<open>GUARD\<close> in the ECC
  mode (\<^verbatim>\<open>-c\<close>, the default of \<^verbatim>\<open>pnorClear\<close>) with its log entry, one resume; this holds
  for every exit status of the clear. When pflash cannot be started it raises after the
  suspend and the attempt to start the clear, without a resume. In both cases the
  partitions are not listed.
\<close>

theorem GardResetStatic_reset_bracket:
  "(popen w (tr @ [HiomapdSuspend]) (clear_cmd (''GUARD'', True)) = Some (buffers, rc) \<longrightarrow>
      GardResetStatic_reset w tr =
        (tr @ [HiomapdSuspend] @ clear_events (''GUARD'', True) rc @ [HiomapdResume], Inr ()))
   \<and> (popen w' (tr' @ [HiomapdSuspend]) (clear_cmd (''GUARD'', True)) = None \<longrightarrow>
      GardResetStatic_reset w' tr' =
        (tr' @ [HiomapdSuspend, Popen (clear_cmd (''GUARD'', True))],
         Inl (RuntimeError ''popen() failed!'')))
   \<and> clear_cmd (''GUARD'', True) = ''pflash -P GUARD -c -f >/dev/null '' @ [CHR 0x0A]
   \<and> Popen discovery_cmd \<notin> set (drop (length tr) (fst (GardResetStatic_reset w tr)))"
  using GardResetStatic_reset_no_discovery [of tr w]
  by (simp add: GardResetStatic_reset_cases [of w tr] GardResetStatic_reset_cases [of w' tr']
      guard_cmd)

theorem GardResetStatic_reset_bracket_witness:
  "popen (example_env None 3) ([] @ [HiomapdSuspend]) (clear_cmd (''GUARD'', True))
     = Some ([], 3)
   \<and> GardResetStatic_reset (example_env None 3) [] =
       ([HiomapdSuspend,
         Popen (''pflash -P GUARD -c -f >/dev/null '' @ [CHR 0x0A]), Pclose,
         Log ERR ''Failed to clear partition''
           [EntryStr ''PART'' ''GUARD'', EntryInt ''RETURNCODE'' 3],
         HiomapdResume], Inr ())
   \<and> popen popen_fail_env ([] @ [HiomapdSuspend]) (clear_cmd (''GUARD'', True)) = None
   \<and> snd (GardResetStatic_reset popen_fail_env []) = Inl (RuntimeError ''popen() failed!'')"
proof -
  have a: "popen (example_env None 3) ([] @ [HiomapdSuspend]) (clear_cmd (''GUARD'', True))
             = Some ([], 3)"
    by (simp add: example_env_def)
  have b: "popen popen_fail_env ([] @ [HiomapdSuspend]) (clear_cmd (''GUARD'', True)) = None"
    by (simp add: popen_fail_env_def example_env_def)
  from GardResetStatic_reset_bracket [of "example_env None 3" "[]" "[]" 3 popen_fail_env "[]"]
    a b
  show ?thesis
    by (simp add: clear_events_def)
qed

section \<open>Registering the image\<close>

lemma getPNORVersion_example:
  assumes "4 \<le> length blob"
  shows "getPNORVersion (example_env (Some blob) 0) [] =
     ([Mkdtemp ''/tmp/versionXXXXXX'', Popen (version_cmd ''/tmp/versionAbCdEf''), Pclose,
       IfstreamOpen ''/tmp/versionAbCdEf/version'', RemoveAll ''/tmp/versionAbCdEf''],
      Inr (takeWhile (\<lambda>c. c \<noteq> CHR 0x00) (drop (if has_magic blob then 4096 else 0) blob)))"
  by (simp add: getPNORVersion_def example_env_def pflash_def Let_def path_append_def
      version_cmd_def read_version_ge4 [OF assms])

text \<open>
  Claim C5, as stated, fails when an activation is already registered under the id:
  \<^verbatim>\<open>std::map::insert\<close> keeps the entry that is there. After an image without extended
  version has been processed (an \<^verbatim>\<open>Invalid\<close> entity), processing an image with the same
  version and a non-empty extended version returns normally, but the entity under the id
  is still \<^verbatim>\<open>Invalid\<close>, now with redundancy priority 0: no \<^verbatim>\<open>Active\<close> entity is
  registered.
\<close>

theorem processPNORImage_active_reprocessed:
  "snd (getPNORVersion (example_env (Some extended_text) 0) []) = Inr extended_text
   \<and> getVersions example_deps extended_text = (''open-power-v1'', ''extra'')
   \<and> getId example_deps ''open-power-v1'' = ''open-pow''
   \<and> \<not> isl (snd (processPNORImage example_deps (example_env (Some extended_text) 0) []
                     updater_after_plain))
   \<and> map_option activation
        (activations
           (processPNORImage_call example_deps updater_after_plain
              (example_env (Some extended_text) 0, [])) ''open-pow'') = Some Invalid
   \<and> map_option redundancyPriority
        (activations
           (processPNORImage_call example_deps updater_after_plain
              (example_env (Some extended_text) 0, [])) ''open-pow'') = Some (Some 0)"
  by code_simp

text \<open>
  Claim C5, amended. When \<^verbatim>\<open>processPNORImage\<close> derives a version, an extended version
  and an id that are all non-empty, and no activation is registered under that id yet (as
  on the first processing, when the maps are empty), it returns normally and the
  activations are those before plus exactly one under the id: in state \<^verbatim>\<open>Active\<close>, with
  redundancy priority 0 and the association to the host inventory. The active, the
  updateable and the functional association are created for the image path, and the
  functional version id is the id.
\<close>

theorem processPNORImage_active:
  assumes "getPNORVersion w tr = (tr1, Inr fullVersion)"
    and "getVersions d fullVersion = (version, extendedVersion)"
    and "version \<noteq> []" and "extendedVersion \<noteq> []"
    and "getId d version = vid" and "vid \<noteq> []"
    and "activations this vid = None"
    and "path = path_append (SOFTWARE_OBJPATH d) vid"
  shows "\<exists>this'. processPNORImage d w tr this = (tr1, Inr this')
     \<and> activations this' = (activations this)(vid \<mapsto>
           \<lparr>objPath = path, versionId = vid, extVersion = extendedVersion,
            activation = Active,
            associations = [(ACTIVATION_FWD_ASSOCIATION d, ACTIVATION_REV_ASSOCIATION d,
                             HOST_INVENTORY_PATH d)],
            redundancyPriority = Some 0\<rparr>)
     \<and> dom (activations this') = insert vid (dom (activations this))
     \<and> assocs this' = assocs this
          @ [(ActiveEdge, path), (UpdateableEdge, path), (FunctionalEdge, path)]
     \<and> functionalVersionId this' = vid"
  using assms
  by (simp add: processPNORImage_def Let_def map_insert_def map_modify_def
      createActiveAssociation_def createUpdateableAssociation_def
      updateFunctionalAssociation_def ItemUpdater_updateFunctionalAssociation_def)

theorem processPNORImage_active_witness:
  "snd (getPNORVersion (example_env (Some (''open-power-v1'' @ [CHR 0x0A] @ ''extra'')) 0) [])
     = Inr (''open-power-v1'' @ [CHR 0x0A] @ ''extra'')
   \<and> getVersions example_deps (''open-power-v1'' @ [CHR 0x0A] @ ''extra'')
       = (''open-power-v1'', ''extra'')
   \<and> getId example_deps ''open-power-v1'' = ''open-pow''
   \<and> activations ItemUpdaterStatic_init ''open-pow'' = None
   \<and> (\<exists>this'.
        snd (processPNORImage example_deps
               (example_env (Some (''open-power-v1'' @ [CHR 0x0A] @ ''extra'')) 0) []
               ItemUpdaterStatic_init) = Inr this'
        \<and> dom (activations this') = {''open-pow''}
        \<and> map_option activation (activations this' ''open-pow'') = Some Active
        \<and> map_option redundancyPriority (activations this' ''open-pow'') = Some (Some 0)
        \<and> assocs this' =
             [(ActiveEdge, ''/xyz/openbmc_project/software/open-pow''),
              (UpdateableEdge, ''/xyz/openbmc_project/software/open-pow''),
              (FunctionalEdge, ''/xyz/openbmc_project/software/open-pow'')]
        \<and> functionalVersionId this' = ''open-pow'')"
proof -
  let ?blob = "''open-power-v1'' @ [CHR 0x0A] @ ''extra''"
  let ?w = "example_env (Some ?blob) 0"
  let ?path = "''/xyz/openbmc_project/software/open-pow''"
  have l: "4 \<le> length ?blob" by simp
  have m: "\<not> has_magic ?blob" by (simp add: has_magic_def)
  obtain tr1 where v: "getPNORVersion ?w [] = (tr1, Inr ?blob)"
    using getPNORVersion_example [OF l] m by simp
  have gv: "getVersions example_deps ?blob = (''open-power-v1'', ''extra'')"
    by (simp add: example_deps_def)
  have gi: "getId example_deps ''open-power-v1'' = ''open-pow''"
    by (simp add: example_deps_def)
  have fr: "activations ItemUpdaterStatic_init ''open-pow'' = None"
    by (simp add: ItemUpdaterStatic_init_def)
  have p: "?path = path_append (SOFTWARE_OBJPATH example_deps) ''open-pow''"
    by (simp add: example_deps_def path_append_def)
  have n1: "''open-power-v1'' \<noteq> []" and n2: "''extra'' \<noteq> []" and n3: "''open-pow'' \<noteq> []"
    by simp_all
  from processPNORImage_active [OF v gv n1 n2 gi n3 fr p]
  obtain this' where h:
    "processPNORImage example_deps ?w [] ItemUpdaterStatic_init = (tr1, Inr this')
     \<and> activations this' = (activations ItemUpdaterStatic_init)(''open-pow'' \<mapsto>
           \<lparr>objPath = ?path, versionId = ''open-pow'', extVersion = ''extra'',
            activation = Active,
            associations = [(ACTIVATION_FWD_ASSOCIATION example_deps,
                             ACTIVATION_REV_ASSOCIATION example_deps,
                             HOST_INVENTORY_PATH example_deps)],
            redundancyPriority = Some 0\<rparr>)
     \<and> dom (activations this') = insert ''open-pow'' (dom (activations ItemUpdaterStatic_init))
     \<and> assocs this' = assocs ItemUpdaterStatic_init
          @ [(ActiveEdge, ?path), (UpdateableEdge, ?path), (FunctionalEdge, ?path)]
     \<and> functionalVersionId this' = ''open-pow''" ..
  have e: "activations ItemUpdaterStatic_init = Map.empty" "assocs ItemUpdaterStatic_init = []"
    by (simp_all add: ItemUpdaterStatic_init_def)
  note h1 = h [THEN conjunct1]
    and h2 = h [THEN conjunct2, THEN conjunct1]
    and h3 = h [THEN conjunct2, THEN conjunct2, THEN conjunct1]
    and h4 = h [THEN conjunct2, THEN conjunct2, THEN conjunct2, THEN conjunct1]
    and h5 = h [THEN conjunct2, THEN conjunct2, THEN conjunct2, THEN conjunct2]
  from h1 have a: "snd (processPNORImage example_deps ?w [] ItemUpdaterStatic_init) = Inr this'"
    by simp
  from h3 have b: "dom (activations this') = {''open-pow''}"
    by (simp add: e)
  from h2 have c: "map_option activation (activations this' ''open-pow'') = Some Active"
    and d: "map_option redundancyPriority (activations this' ''open-pow'') = Some (Some 0)"
    by simp_all
  from h4 have f: "assocs this' =
      [(ActiveEdge, ?path), (UpdateableEdge, ?path), (FunctionalEdge, ?path)]"
    by (simp add: e)
  from v have v': "snd (getPNORVersion ?w []) = Inr ?blob" by simp
  from v' gv gi fr a b c d f h5 show ?thesis by blast
qed

text \<open>
  Claim C6, as stated, fails when an activation is already registered under the id:
  \<^verbatim>\<open>std::map::insert\<close> keeps the entry that is there. After an image with an extended
  version has been processed (an \<^verbatim>\<open>Active\<close> entity), processing an image with the same
  version and an empty extended version returns normally, but the entity under the id is
  still \<^verbatim>\<open>Active\<close> with redundancy priority 0, and the active association of its path
  is still there.
\<close>

theorem processPNORImage_invalid_reprocessed:
  "snd (getPNORVersion (example_env (Some plain_text) 0) []) = Inr plain_text
   \<and> getVersions example_deps plain_text = (''open-power-v1'', [])
   \<and> getId example_deps ''open-power-v1'' = ''open-pow''
   \<and> \<not> isl (snd (processPNORImage example_deps (example_env (Some plain_text) 0) []
                     updater_after_extended))
   \<and> map_option activation
        (activations
           (processPNORImage_call example_deps updater_after_extended
              (example_env (Some plain_text) 0, [])) ''open-pow'') = Some Active
   \<and> map_option redundancyPriority
        (activations
           (processPNORImage_call example_deps updater_after_extended
              (example_env (Some plain_text) 0, [])) ''open-pow'') = Some (Some 0)
   \<and> (ActiveEdge, ''/xyz/openbmc_project/software/open-pow'')
        \<in> set (assocs
             (processPNORImage_call example_deps updater_after_extended
                (example_env (Some plain_text) 0, [])))"
  by code_simp

text \<open>
  Claim C6, amended. When \<^verbatim>\<open>processPNORImage\<close> derives a non-empty version and id but
  an empty extended version, and no activation is registered under that id yet (as on the
  first processing, when the maps are empty), it returns normally after logging the
  failure, and the activations are those before plus one under the id: in state
  \<^verbatim>\<open>Invalid\<close>, with no redundancy priority and no association of its own. The updateable
  association (and the functional one) is created for the image path; no active
  association is created.
\<close>

theorem processPNORImage_invalid:
  assumes "getPNORVersion w tr = (tr1, Inr fullVersion)"
    and "getVersions d fullVersion = (version, extendedVersion)"
    and "version \<noteq> []" and "extendedVersion = []"
    and "getId d version = vid" and "vid \<noteq> []"
    and "activations this vid = None"
    and "path = path_append (SOFTWARE_OBJPATH d) vid"
  shows "\<exists>this'. processPNORImage d w tr this =
         (tr1 @ [Log ERR ''Failed to read extendedVersion'' [EntryStr ''VERSION'' fullVersion]],
          Inr this')
     \<and> activations this' = (activations this)(vid \<mapsto>
           \<lparr>objPath = path, versionId = vid, extVersion = [],
            activation = Invalid, associations = [], redundancyPriority = None\<rparr>)
     \<and> assocs this' = assocs this @ [(UpdateableEdge, path), (FunctionalEdge, path)]
     \<and> ((ActiveEdge, path) \<in> set (assocs this') \<longleftrightarrow> (ActiveEdge, path) \<in> set (assocs this))"
  using assms
  by (simp add: processPNORImage_def Let_def map_insert_def map_modify_def
      createActiveAssociation_def createUpdateableAssociation_def
      updateFunctionalAssociation_def ItemUpdater_updateFunctionalAssociation_def)

theorem processPNORImage_invalid_witness:
  "snd (getPNORVersion (example_env (Some ''open-power-v1'') 0) []) = Inr ''open-power-v1''
   \<and> getVersions example_deps ''open-power-v1'' = (''open-power-v1'', [])
   \<and> getId example_deps ''open-power-v1'' = ''open-pow''
   \<and> activations ItemUpdaterStatic_init ''open-pow'' = None
   \<and> (\<exists>this'.
        snd (processPNORImage example_deps (example_env (Some ''open-power-v1'') 0) []
               ItemUpdaterStatic_init) = Inr this'
        \<and> map_option activation (activations this' ''open-pow'') = Some Invalid
        \<and> map_option redundancyPriority (activations this' ''open-pow'') = Some None
        \<and> assocs this' =
             [(UpdateableEdge, ''/xyz/openbmc_project/software/open-pow''),
              (FunctionalEdge, ''/xyz/openbmc_project/software/open-pow'')])"
proof -
  let ?blob = "''open-power-v1''"
  let ?w = "example_env (Some ?blob) 0"
  let ?path = "''/xyz/openbmc_project/software/open-pow''"
  have l: "4 \<le> length ?blob" by simp
  have m: "\<not> has_magic ?blob" by (simp add: has_magic_def)
  obtain tr1 where v: "getPNORVersion ?w [] = (tr1, Inr ?blob)"
    using getPNORVersion_example [OF l] m by simp
  have gv: "getVersions example_deps ?blob = (''open-power-v1'', [])"
    by (simp add: example_deps_def)
  have gi: "getId example_deps ''open-power-v1'' = ''open-pow''"
    by (simp add: example_deps_def)
  have fr: "activations ItemUpdaterStatic_init ''open-pow'' = None"
    by (simp add: ItemUpdaterStatic_init_def)
  have p: "?path = path_append (SOFTWARE_OBJPATH example_deps) ''open-pow''"
    by (simp add: example_deps_def path_append_def)
  have n1: "''open-power-v1'' \<noteq> []" and n3: "''open-pow'' \<noteq> []"
    by simp_all
  from processPNORImage_invalid [OF v gv n1 refl gi n3 fr p]
  obtain this' where h:
    "processPNORImage example_deps ?w [] ItemUpdaterStatic_init =
       (tr1 @ [Log ERR ''Failed to read extendedVersion'' [EntryStr ''VERSION'' ?blob]],
        Inr this')
     \<and> activations this' = (activations ItemUpdaterStatic_init)(''open-pow'' \<mapsto>
           \<lparr>objPath = ?path, versionId = ''open-pow'', extVersion = [],
            activation = Invalid, associations = [], redundancyPriority = None\<rparr>)
     \<and> assocs this' = assocs ItemUpdaterStatic_init
          @ [(UpdateableEdge, ?path), (FunctionalEdge, ?path)]
     \<and> ((ActiveEdge, ?path) \<in> set (assocs this')
          \<longleftrightarrow> (ActiveEdge, ?path) \<in> set (assocs ItemUpdaterStatic_init))" ..
  have e: "assocs ItemUpdaterStatic_init = []"
    by (simp add: ItemUpdaterStatic_init_def)
  note h1 = h [THEN conjunct1]
    and h2 = h [THEN conjunct2, THEN conjunct1]
    and h3 = h [THEN conjunct2, THEN conjunct2, THEN conjunct1]
  from h1 have a: "snd (processPNORImage example_deps ?w [] ItemUpdaterStatic_init) = Inr this'"
    by simp
  from h2 have c: "map_option activation (activations this' ''open-pow'') = Some Invalid"
    and d: "map_option redundancyPriority (activations this' ''open-pow'') = Some None"
    by simp_all
  from h3 have f: "assocs this' = [(UpdateableEdge, ?path), (FunctionalEdge, ?path)]"
    by (simp add: e)
  from v have v': "snd (getPNORVersion ?w []) = Inr ?blob" by simp
  from v' gv gi fr a c d f show ?thesis by blast
qed

section \<open>The functional version\<close>






end
